theory Spec2Isabelle
  imports Complex_Main "HOL-Library.Word"
begin

chapter \<open>The notebooks' code\<close>

section \<open>Python values shared by the notebooks\<close>

text \<open>
  The notebooks are Python. Exceptions are values of \<open>py_error\<close>; a computation that
  can raise returns \<open>py_error + 'a\<close> with \<open>Inl\<close> for the raised exception.
  \<open>Exception s\<close> is \<^verbatim>\<open>raise Exception(s)\<close>.
\<close>

datatype py_error =
    IndexError | KeyError | ValueError | TypeError | AttributeError | ZeroDivisionError
  | OverflowError | WaiterError | Exception string

text \<open>
  A slice \<^verbatim>\<open>xs[a:b]\<close>: a negative bound counts from the end, and every bound is
  clipped to the list.
\<close>

definition slice_bound :: "nat \<Rightarrow> int \<Rightarrow> nat" where
  "slice_bound n i = (if i < 0 then nat (max 0 (int n + i)) else min n (nat i))"

definition py_slice :: "'a list \<Rightarrow> int \<Rightarrow> int \<Rightarrow> 'a list" where
  "py_slice xs a b =
     (let lo = slice_bound (length xs) a; hi = slice_bound (length xs) b
      in take (hi - lo) (drop lo xs))"

text \<open>
  \<^verbatim>\<open>range(start, stop, step)\<close> for a positive step. A step of zero raises
  \<open>ValueError\<close> and a negative step counts downwards; \<open>py_range\<close> handles both
  before it calls \<open>range_up\<close>.
\<close>

function range_up :: "int \<Rightarrow> int \<Rightarrow> int \<Rightarrow> int list" where
  "range_up i stop step =
     (if 0 < step \<and> i < stop then i # range_up (i + step) stop step else [])"
  by pat_completeness auto
termination
  by (relation "measure (\<lambda>(i, stop, step). nat (stop - i))") auto

function range_down :: "int \<Rightarrow> int \<Rightarrow> int \<Rightarrow> int list" where
  "range_down i stop step =
     (if step < 0 \<and> stop < i then i # range_down (i + step) stop step else [])"
  by pat_completeness auto
termination
  by (relation "measure (\<lambda>(i, stop, step). nat (i - stop))") auto

definition py_range :: "int \<Rightarrow> int \<Rightarrow> int \<Rightarrow> py_error + int list" where
  "py_range start stop step =
     (if step = 0 then Inl ValueError
      else if 0 < step then Inr (range_up start stop step)
      else Inr (range_down start stop step))"

section \<open>Python floats\<close>

text \<open>
  A Python float is an IEEE 754 double: a real number of the form \<open>m * 2^e\<close> with
  integers \<open>\<bar>m\<bar> < 2^53\<close> and \<open>- 1074 \<le> e \<le> 971\<close>, an infinity, or NaN. The sign of zero is
  not modelled: no operation used by the notebooks' functions tells \<open>-0.0\<close> from \<open>0.0\<close>
  except the formatting of a score.

  \<open>pow2 e\<close> is \<open>2^e\<close>. \<open>quantum_exp x\<close> is the exponent of the last bit of the doubles
  around \<open>x\<close>: the least \<open>e\<close> from \<open>- 1074\<close> on with \<open>\<bar>x\<bar> < 2^(e + 53)\<close>. \<open>double x\<close>
  rounds \<open>x\<close> to the nearest multiple of \<open>2^(quantum_exp x)\<close>, a tie to the even
  multiple; \<open>round64\<close> is the result of an arithmetic operation whose exact value is \<open>x\<close>,
  an infinity when the rounded value is out of range.
\<close>

datatype py_float = Finite real | PosInf | NegInf | NaN

definition pow2 :: "int \<Rightarrow> real" where
  "pow2 e = (if 0 \<le> e then 2 ^ nat e else 1 / 2 ^ nat (- e))"

definition quantum_exp :: "real \<Rightarrow> int" where
  "quantum_exp x =
     (case find (\<lambda>e. \<bar>x\<bar> < pow2 (e + 53)) [- 1074..971] of Some e \<Rightarrow> e | None \<Rightarrow> 971)"

definition round_half_even :: "real \<Rightarrow> int" where
  "round_half_even y =
     (let f = \<lfloor>y\<rfloor>
      in if y - of_int f < 1 / 2 then f
         else if 1 / 2 < y - of_int f then f + 1
         else if even f then f else f + 1)"

definition double :: "real \<Rightarrow> real" where
  "double x = of_int (round_half_even (x / pow2 (quantum_exp x))) * pow2 (quantum_exp x)"

definition round64 :: "real \<Rightarrow> py_float" where
  "round64 x =
     (if pow2 1024 \<le> \<bar>double x\<bar> then (if 0 < x then PosInf else NegInf)
      else Finite (double x))"

text \<open>
  \<^verbatim>\<open>float(i)\<close> of an integer, also the conversion of the integer operand of \<open>x * i\<close>:
  the nearest double, and \<open>OverflowError\<close> when there is none.
\<close>

definition float_of_int :: "int \<Rightarrow> py_error + py_float" where
  "float_of_int i =
     (case round64 (of_int i) of
        Finite x \<Rightarrow> Inr (Finite x)
      | _ \<Rightarrow> Inl OverflowError)"

text \<open>
  \<^verbatim>\<open>int(x)\<close> of a float truncates towards zero; it raises \<open>ValueError\<close> on NaN and
  \<open>OverflowError\<close> on an infinity.
\<close>

definition py_int :: "py_float \<Rightarrow> py_error + int" where
  "py_int a =
     (case a of
        Finite x \<Rightarrow> Inr (if 0 \<le> x then \<lfloor>x\<rfloor> else \<lceil>x\<rceil>)
      | NaN \<Rightarrow> Inl ValueError
      | _ \<Rightarrow> Inl OverflowError)"

text \<open>The comparisons \<open>a < b\<close> and \<open>a >= b\<close>: both are false when an operand is NaN.\<close>

definition float_lt :: "py_float \<Rightarrow> py_float \<Rightarrow> bool" where
  "float_lt a b =
     (case (a, b) of
        (Finite x, Finite y) \<Rightarrow> x < y
      | (Finite x, PosInf) \<Rightarrow> True
      | (NegInf, Finite y) \<Rightarrow> True
      | (NegInf, PosInf) \<Rightarrow> True
      | _ \<Rightarrow> False)"

definition float_ge :: "py_float \<Rightarrow> py_float \<Rightarrow> bool" where
  "float_ge a b =
     (case (a, b) of
        (Finite x, Finite y) \<Rightarrow> y \<le> x
      | (Finite x, NegInf) \<Rightarrow> True
      | (PosInf, Finite y) \<Rightarrow> True
      | (PosInf, PosInf) \<Rightarrow> True
      | (PosInf, NegInf) \<Rightarrow> True
      | (NegInf, NegInf) \<Rightarrow> True
      | _ \<Rightarrow> False)"

text \<open>
  The arithmetic operations round the exact result. \<open>a / b\<close> raises
  \<open>ZeroDivisionError\<close> when \<open>b\<close> is zero, whatever \<open>a\<close> is.
\<close>

definition float_negative :: "py_float \<Rightarrow> bool" where
  "float_negative a = (case a of Finite x \<Rightarrow> x < 0 | NegInf \<Rightarrow> True | _ \<Rightarrow> False)"

definition float_mul :: "py_float \<Rightarrow> py_float \<Rightarrow> py_float" where
  "float_mul a b =
     (case (a, b) of
        (Finite x, Finite y) \<Rightarrow> round64 (x * y)
      | _ \<Rightarrow>
          if a = NaN \<or> b = NaN \<or> a = Finite 0 \<or> b = Finite 0 then NaN
          else if float_negative a = float_negative b then PosInf
          else NegInf)"

definition float_sub :: "py_float \<Rightarrow> py_float \<Rightarrow> py_float" where
  "float_sub a b =
     (case (a, b) of
        (Finite x, Finite y) \<Rightarrow> round64 (x - y)
      | (Finite x, PosInf) \<Rightarrow> NegInf
      | (Finite x, NegInf) \<Rightarrow> PosInf
      | (PosInf, Finite y) \<Rightarrow> PosInf
      | (PosInf, NegInf) \<Rightarrow> PosInf
      | (NegInf, Finite y) \<Rightarrow> NegInf
      | (NegInf, PosInf) \<Rightarrow> NegInf
      | _ \<Rightarrow> NaN)"

definition float_truediv :: "py_float \<Rightarrow> py_float \<Rightarrow> py_error + py_float" where
  "float_truediv a b =
     (if b = Finite 0 then Inl ZeroDivisionError
      else
        Inr (case (a, b) of
               (Finite x, Finite y) \<Rightarrow> round64 (x / y)
             | (Finite x, PosInf) \<Rightarrow> Finite 0
             | (Finite x, NegInf) \<Rightarrow> Finite 0
             | (PosInf, Finite y) \<Rightarrow> if y < 0 then NegInf else PosInf
             | (NegInf, Finite y) \<Rightarrow> if y < 0 then PosInf else NegInf
             | _ \<Rightarrow> NaN))"

section \<open>batch_predict (xgboost_mnist.ipynb and Image-classification-multilabel-lst.ipynb)\<close>

text \<open>
  Both notebooks define \<^verbatim>\<open>batch_predict(data, batch_size, endpoint_name, content_type)\<close>.
  \<open>do_predict\<close> calls the endpoint, which is outside the repository: it is a parameter
  here, already applied to the endpoint name and the content type, and it may raise.
  The loop \<^verbatim>\<open>for offset in range(0, items, batch_size)\<close> extends \<open>arrs\<close> with each
  batch's predictions and stops at the first exception. The dot written to \<open>stdout\<close>
  after each batch is left out.
\<close>

fun batch_loop_min ::
  "('a list \<Rightarrow> py_error + 'b list) \<Rightarrow> 'a list \<Rightarrow> int \<Rightarrow> int list \<Rightarrow> 'b list \<Rightarrow> py_error + 'b list"
where
  "batch_loop_min do_predict data batch_size [] arrs = Inr arrs"
| "batch_loop_min do_predict data batch_size (offset # offsets) arrs =
     (case do_predict (py_slice data offset (min (offset + batch_size) (int (length data)))) of
        Inl e \<Rightarrow> Inl e
      | Inr preds \<Rightarrow> batch_loop_min do_predict data batch_size offsets (arrs @ preds))"

definition batch_predict_min ::
  "('a list \<Rightarrow> py_error + 'b list) \<Rightarrow> 'a list \<Rightarrow> int \<Rightarrow> py_error + 'b list"
where
  "batch_predict_min do_predict data batch_size =
     (case py_range 0 (int (length data)) batch_size of
        Inl e \<Rightarrow> Inl e
      | Inr offsets \<Rightarrow> batch_loop_min do_predict data batch_size offsets [])"

fun batch_loop_branch ::
  "('a list \<Rightarrow> py_error + 'b list) \<Rightarrow> 'a list \<Rightarrow> int \<Rightarrow> int list \<Rightarrow> 'b list \<Rightarrow> py_error + 'b list"
where
  "batch_loop_branch do_predict data batch_size [] arrs = Inr arrs"
| "batch_loop_branch do_predict data batch_size (offset # offsets) arrs =
     (if offset + batch_size < int (length data)
      then (case do_predict (py_slice data offset (offset + batch_size)) of
              Inl e \<Rightarrow> Inl e
            | Inr results \<Rightarrow> batch_loop_branch do_predict data batch_size offsets (arrs @ results))
      else (case do_predict (py_slice data offset (int (length data))) of
              Inl e \<Rightarrow> Inl e
            | Inr results \<Rightarrow> batch_loop_branch do_predict data batch_size offsets (arrs @ results)))"

definition batch_predict_branch ::
  "('a list \<Rightarrow> py_error + 'b list) \<Rightarrow> 'a list \<Rightarrow> int \<Rightarrow> py_error + 'b list"
where
  "batch_predict_branch do_predict data batch_size =
     (case py_range 0 (int (length data)) batch_size of
        Inl e \<Rightarrow> Inl e
      | Inr offsets \<Rightarrow> batch_loop_branch do_predict data batch_size offsets [])"

text \<open>The chunks each variant hands to \<open>do_predict\<close>, in order, when no call raises.\<close>

definition chunks_min :: "'a list \<Rightarrow> int \<Rightarrow> int list \<Rightarrow> 'a list list" where
  "chunks_min data batch_size offsets =
     map (\<lambda>offset. py_slice data offset (min (offset + batch_size) (int (length data)))) offsets"

definition chunks_branch :: "'a list \<Rightarrow> int \<Rightarrow> int list \<Rightarrow> 'a list list" where
  "chunks_branch data batch_size offsets =
     map (\<lambda>offset. if offset + batch_size < int (length data)
                    then py_slice data offset (offset + batch_size)
                    else py_slice data offset (int (length data))) offsets"

text \<open>
  Handing a list of chunks to \<open>do_predict\<close>, extending \<open>arrs\<close> until a call raises:
  what both loops do once the chunks are chosen.
\<close>

fun feed ::
  "('a list \<Rightarrow> py_error + 'b list) \<Rightarrow> 'a list list \<Rightarrow> 'b list \<Rightarrow> py_error + 'b list"
where
  "feed do_predict [] arrs = Inr arrs"
| "feed do_predict (c # cs) arrs =
     (case do_predict c of Inl e \<Rightarrow> Inl e | Inr preds \<Rightarrow> feed do_predict cs (arrs @ preds))"

section \<open>Strings, bytes and in-memory files\<close>

text \<open>
  Python's \<open>str\<close> is modelled by \<open>string\<close>. What the notebooks ask of Python's built-ins
  is taken as a parameter wherever it depends on the type of the data: \<open>utf8\<close> is
  \<^verbatim>\<open>bytes(s, 'utf-8')\<close>, \<open>fmt_label\<close> and \<open>fmt_el\<close> are \<^verbatim>\<open>'{}'.format(x)\<close> at the types
  of the labels and of the features. \<^verbatim>\<open>'{}'.format(n)\<close> of an \<open>int\<close> is its decimal
  numeral.
\<close>

type_synonym byte = "8 word"

fun str_nat :: "nat \<Rightarrow> string" where
  "str_nat n =
     (if n < 10 then [''0123456789'' ! n]
      else str_nat (n div 10) @ [''0123456789'' ! (n mod 10)])"

declare str_nat.simps [simp del]

definition str_int :: "int \<Rightarrow> string" where
  "str_int i = (if i < 0 then CHR ''-'' # str_nat (nat (- i)) else str_nat (nat i))"

text \<open>\<^verbatim>\<open>sep.join(xs)\<close> and \<^verbatim>\<open>enumerate(xs)\<close> (counting from \<open>i\<close>).\<close>

fun str_join :: "string \<Rightarrow> string list \<Rightarrow> string" where
  "str_join sep [] = []"
| "str_join sep [x] = x"
| "str_join sep (x # y # ys) = x @ sep @ str_join sep (y # ys)"

fun py_enumerate :: "nat \<Rightarrow> 'a list \<Rightarrow> (nat \<times> 'a) list" where
  "py_enumerate i [] = []"
| "py_enumerate i (x # xs) = (i, x) # py_enumerate (Suc i) xs"

text \<open>
  \<^verbatim>\<open>io.BytesIO\<close>: a buffer and a position. \<open>write\<close> overwrites from the position on
  (after padding with zero bytes when the position is past the end) and advances it;
  writing no bytes changes nothing. \<open>seek\<close> sets the position, \<open>read\<close> returns the
  bytes from the position to the end and moves the position there.
\<close>

record bytesio =
  buf :: "byte list"
  pos :: nat

definition BytesIO :: bytesio where
  "BytesIO = \<lparr>buf = [], pos = 0\<rparr>"

definition bytesio_write :: "bytesio \<Rightarrow> byte list \<Rightarrow> bytesio" where
  "bytesio_write f b =
     (if b = [] then f
      else f\<lparr>buf := take (pos f) (buf f) @ replicate (pos f - length (buf f)) 0 @ b
                       @ drop (pos f + length b) (buf f),
             pos := pos f + length b\<rparr>)"

definition bytesio_seek :: "bytesio \<Rightarrow> nat \<Rightarrow> bytesio" where
  "bytesio_seek f n = f\<lparr>pos := n\<rparr>"

definition bytesio_read :: "bytesio \<Rightarrow> byte list \<times> bytesio" where
  "bytesio_read f = (drop (pos f) (buf f), f\<lparr>pos := max (pos f) (length (buf f))\<rparr>)"

section \<open>to_libsvm and upload_to_s3 (xgboost_mnist.ipynb)\<close>

text \<open>
  \<^verbatim>\<open>to_libsvm(f, labels, values)\<close> writes one string to \<open>f\<close> and returns \<open>f\<close>. The string
  is built by two nested list comprehensions: \<open>libsvm_line\<close> is the outer
  \<^verbatim>\<open>'{} {}'.format(label, ' '.join([...]))\<close>, \<open>libsvm_feature\<close> the inner
  \<^verbatim>\<open>'{}:{}'.format(i + 1, el)\<close>.
\<close>

definition libsvm_feature :: "('v \<Rightarrow> string) \<Rightarrow> nat \<times> 'v \<Rightarrow> string" where
  "libsvm_feature fmt_el p = (case p of (i, el) \<Rightarrow> str_int (int i + 1) @ '':'' @ fmt_el el)"

definition libsvm_line :: "('l \<Rightarrow> string) \<Rightarrow> ('v \<Rightarrow> string) \<Rightarrow> 'l \<times> 'v list \<Rightarrow> string" where
  "libsvm_line fmt_label fmt_el p =
     (case p of (label, vec) \<Rightarrow>
        fmt_label label @ '' '' @ str_join '' '' (map (libsvm_feature fmt_el) (py_enumerate 0 vec)))"

definition libsvm_text ::
  "('l \<Rightarrow> string) \<Rightarrow> ('v \<Rightarrow> string) \<Rightarrow> 'l list \<Rightarrow> 'v list list \<Rightarrow> string" where
  "libsvm_text fmt_label fmt_el labels values =
     str_join [CHR 0x0A] (map (libsvm_line fmt_label fmt_el) (zip labels values))"

definition to_libsvm ::
  "(string \<Rightarrow> byte list) \<Rightarrow> ('l \<Rightarrow> string) \<Rightarrow> ('v \<Rightarrow> string) \<Rightarrow>
   bytesio \<Rightarrow> 'l list \<Rightarrow> 'v list list \<Rightarrow> bytesio" where
  "to_libsvm utf8 fmt_label fmt_el f labels values =
     bytesio_write f (utf8 (libsvm_text fmt_label fmt_el labels values))"

text \<open>
  What the claim about \<open>to_libsvm\<close> says the text is, position by position: line \<open>k\<close> is
  the label \<open>labels ! k\<close>, a space, and the features of \<open>values ! k\<close>, feature \<open>j\<close> written
  as \<open>j + 1\<close>, a colon and the value; a space stands between two features and a newline
  between two lines, nothing after the last.
\<close>

definition libsvm_line_spec :: "('l \<Rightarrow> string) \<Rightarrow> ('v \<Rightarrow> string) \<Rightarrow> 'l \<Rightarrow> 'v list \<Rightarrow> string" where
  "libsvm_line_spec fmt_label fmt_el label vec =
     fmt_label label @ '' '' @
     concat (map (\<lambda>j. str_nat (j + 1) @ '':'' @ fmt_el (vec ! j)
                        @ (if j + 1 < length vec then '' '' else []))
                 [0..<length vec])"

definition libsvm_text_spec ::
  "('l \<Rightarrow> string) \<Rightarrow> ('v \<Rightarrow> string) \<Rightarrow> 'l list \<Rightarrow> 'v list list \<Rightarrow> string" where
  "libsvm_text_spec fmt_label fmt_el labels values =
     concat (map (\<lambda>k. libsvm_line_spec fmt_label fmt_el (labels ! k) (values ! k)
                        @ (if k + 1 < length labels then [CHR 0x0A] else []))
                 [0..<length labels])"

text \<open>
  The notebook's world outside Python: the objects put to S3, in order, as
  (bucket, key, body), and the lines printed. \<open>write_to_s3\<close> uploads what
  \<open>upload_fileobj\<close> reads from the file object.
\<close>

record world =
  s3 :: "(string \<times> string \<times> byte list) list"
  stdout :: "string list"

definition print :: "string \<Rightarrow> world \<Rightarrow> world" where
  "print line w = w\<lparr>stdout := stdout w @ [line]\<rparr>"

definition write_to_s3 :: "bytesio \<Rightarrow> string \<Rightarrow> string \<Rightarrow> world \<Rightarrow> world" where
  "write_to_s3 fobj bucket key w = w\<lparr>s3 := s3 w @ [(bucket, key, fst (bytesio_read fobj))]\<rparr>"

text \<open>
  \<^verbatim>\<open>upload_to_s3(partition_name, partition)\<close>. \<open>bucket\<close> and \<open>prefix\<close> are globals of the
  notebook. \<open>partition[0]\<close> holds the vectors and \<open>partition[1]\<close> the labels;
  \<open>tolist()\<close> changes the representation only. \<^verbatim>\<open>int(len(labels) / num_partition)\<close>
  divides as floats and truncates: for a length a list can have this is the integer
  quotient. \<open>upload_loop\<close> is the body of \<^verbatim>\<open>for i in range(num_partition)\<close>.
\<close>

definition s3_key :: "string \<Rightarrow> string \<Rightarrow> int \<Rightarrow> string" where
  "s3_key prefix partition_name i = prefix @ ''/'' @ partition_name @ ''/examples'' @ str_int i"

fun upload_loop ::
  "(string \<Rightarrow> byte list) \<Rightarrow> ('l \<Rightarrow> string) \<Rightarrow> ('v \<Rightarrow> string) \<Rightarrow> string \<Rightarrow> string \<Rightarrow>
   string \<Rightarrow> 'l list \<Rightarrow> 'v list list \<Rightarrow> int \<Rightarrow> int list \<Rightarrow> world \<Rightarrow> world" where
  "upload_loop utf8 fmt_label fmt_el bucket prefix partition_name labels vectors partition_bound [] w = w"
| "upload_loop utf8 fmt_label fmt_el bucket prefix partition_name labels vectors partition_bound (i # is) w =
     (let f = BytesIO;
          f = to_libsvm utf8 fmt_label fmt_el f
                (py_slice labels (i * partition_bound) ((i + 1) * partition_bound))
                (py_slice vectors (i * partition_bound) ((i + 1) * partition_bound));
          f = bytesio_seek f 0;
          key = s3_key prefix partition_name i;
          url = ''s3://'' @ bucket @ ''/'' @ key;
          w = print (''Writing to '' @ url) w;
          w = write_to_s3 f bucket key w;
          w = print (''Done writing to '' @ url) w
      in upload_loop utf8 fmt_label fmt_el bucket prefix partition_name labels vectors partition_bound is w)"

definition upload_to_s3 ::
  "(string \<Rightarrow> byte list) \<Rightarrow> ('l \<Rightarrow> string) \<Rightarrow> ('v \<Rightarrow> string) \<Rightarrow> string \<Rightarrow> string \<Rightarrow>
   string \<Rightarrow> 'v list list \<times> 'l list \<Rightarrow> world \<Rightarrow> world" where
  "upload_to_s3 utf8 fmt_label fmt_el bucket prefix partition_name partition' w =
     (let labels = snd partition';
          vectors = fst partition';
          num_partition = 5;
          partition_bound = int (length labels) div num_partition
      in upload_loop utf8 fmt_label fmt_el bucket prefix partition_name labels vectors
           partition_bound (range_up 0 num_partition 1) w)"

text \<open>
  The examples of a partition are its (label, vector) pairs; \<open>chunk n i\<close> is the
  \<open>i\<close>-th run of \<open>n\<close> consecutive elements of a list. \<open>ascii\<close> is UTF-8 on ASCII
  text, for running the definitions on concrete data.
\<close>

definition chunk :: "nat \<Rightarrow> nat \<Rightarrow> 'a list \<Rightarrow> 'a list" where
  "chunk n i xs = take n (drop (i * n) xs)"

definition ascii :: "string \<Rightarrow> byte list" where
  "ascii s = map (\<lambda>c. of_char c) s"

section \<open>error_rate (xgboost_mnist.ipynb)\<close>

text \<open>
  \<^verbatim>\<open>error_rate(predictions, labels)\<close> takes two one-dimensional numpy arrays; their
  entries are modelled as integers. \<open>predictions == labels\<close> compares elementwise, after
  broadcasting an array of length one, and raises when the shapes do not fit;
  \<open>numpy.sum\<close> counts the \<open>True\<close>s.
\<close>

definition np_equal :: "int list \<Rightarrow> int list \<Rightarrow> py_error + bool list" where
  "np_equal xs ys =
     (if length xs = length ys then Inr (map (\<lambda>(x, y). x = y) (zip xs ys))
      else if length ys = 1 then Inr (map (\<lambda>x. x = hd ys) xs)
      else if length xs = 1 then Inr (map (\<lambda>y. hd xs = y) ys)
      else Inl ValueError)"

definition np_sum :: "bool list \<Rightarrow> nat" where
  "np_sum bs = length (filter id bs)"

text \<open>
  \<open>confusions\<close> is a matrix of \<open>numpy.int32\<close>, here a list of rows of 32-bit words, so
  \<open>+= 1\<close> wraps. An index \<open>i\<close> into an axis of length \<open>n\<close> is valid from \<open>-n\<close> to
  \<open>n - 1\<close>, a negative one counting from the end.
\<close>

type_synonym int32 = "32 word"

definition np_zeros :: "nat \<Rightarrow> nat \<Rightarrow> int32 list list" where
  "np_zeros rows cols = replicate rows (replicate cols 0)"

definition np_index :: "nat \<Rightarrow> int \<Rightarrow> py_error + nat" where
  "np_index n i =
     (if 0 \<le> i \<and> i < int n then Inr (nat i)
      else if - int n \<le> i \<and> i < 0 then Inr (nat (i + int n))
      else Inl IndexError)"

definition increment :: "int32 list list \<Rightarrow> int \<Rightarrow> int \<Rightarrow> py_error + int32 list list" where
  "increment m i j =
     (case np_index (length m) i of
        Inl e \<Rightarrow> Inl e
      | Inr r \<Rightarrow>
          (case np_index (length (m ! r)) j of
             Inl e \<Rightarrow> Inl e
           | Inr c \<Rightarrow> Inr (m[r := (m ! r)[c := m ! r ! c + 1]])))"

text \<open>The loop \<^verbatim>\<open>for predicted, actual in bundled\<close>.\<close>

fun tally :: "(int \<times> int) list \<Rightarrow> int32 list list \<Rightarrow> py_error + int32 list list" where
  "tally [] confusions = Inr confusions"
| "tally ((predicted, actual) # bundled) confusions =
     (case increment confusions predicted actual of
        Inl e \<Rightarrow> Inl e
      | Inr confusions' \<Rightarrow> tally bundled confusions')"

text \<open>
  \<^verbatim>\<open>error = 100.0 - (100 * float(correct) / float(total))\<close> is computed in Python
  floats, from left to right: \<open>float(correct)\<close>, the product with \<open>100\<close>, \<open>float(total)\<close>,
  the quotient, the difference; each operation rounds.
\<close>

definition error_rate :: "int list \<Rightarrow> int list \<Rightarrow> py_error + (py_float \<times> int32 list list)" where
  "error_rate predictions labels =
     (case np_equal predictions labels of
        Inl e \<Rightarrow> Inl e
      | Inr eq \<Rightarrow>
          (let correct = np_sum eq;
               total = length predictions
           in case float_of_int (int correct) of
                Inl e \<Rightarrow> Inl e
              | Inr float_correct \<Rightarrow>
                  (case float_of_int (int total) of
                     Inl e \<Rightarrow> Inl e
                   | Inr float_total \<Rightarrow>
                       (case float_truediv (float_mul (Finite 100) float_correct) float_total of
                          Inl e \<Rightarrow> Inl e
                        | Inr ratio \<Rightarrow>
                            (let error = float_sub (Finite 100) ratio
                             in case tally (zip predictions labels) (np_zeros 10 10) of
                                  Inl e \<Rightarrow> Inl e
                                | Inr confusions \<Rightarrow> Inr (error, confusions))))))"

text \<open>
  What the claim about \<open>error_rate\<close> counts: the positions at which the prediction equals
  the label, and the positions with a given predicted and actual value. \<open>error_percent\<close>
  is the claim's error, a real number: 100 minus 100 times the fraction of agreeing
  positions.
\<close>

definition agreeing :: "int list \<Rightarrow> int list \<Rightarrow> nat" where
  "agreeing predictions labels =
     length (filter (\<lambda>k. predictions ! k = labels ! k) [0..<length predictions])"

definition confused :: "int list \<Rightarrow> int list \<Rightarrow> nat \<Rightarrow> nat \<Rightarrow> nat" where
  "confused predictions labels p a =
     length (filter (\<lambda>k. predictions ! k = int p \<and> labels ! k = int a) [0..<length predictions])"

definition error_percent :: "int list \<Rightarrow> int list \<Rightarrow> real" where
  "error_percent predictions labels =
     100 - 100 * (real (agreeing predictions labels) / real (length predictions))"

definition in_digits :: "int list \<Rightarrow> bool" where
  "in_digits xs = list_all (\<lambda>x. 0 \<le> x \<and> x \<le> 9) xs"

definition matrix_total :: "int32 list list \<Rightarrow> int" where
  "matrix_total m = sum_list (map (\<lambda>row. sum_list (map sint row)) m)"

text \<open>
  Two notions for reasoning about the loop: \<open>mat10 f\<close> is the 10-by-10 matrix whose
  entry in row \<open>p\<close> and column \<open>a\<close> is \<open>f p a\<close>, and \<open>pairs_equal\<close> counts the pairs of a
  list equal to \<open>(p, a)\<close>.
\<close>

definition mat10 :: "(nat \<Rightarrow> nat \<Rightarrow> int32) \<Rightarrow> int32 list list" where
  "mat10 f = map (\<lambda>p. map (\<lambda>a. f p a) [0..<10]) [0..<10]"

definition pairs_equal :: "nat \<Rightarrow> nat \<Rightarrow> (int \<times> int) list \<Rightarrow> nat" where
  "pairs_equal p a zs = length (filter (\<lambda>(x, y). x = int p \<and> y = int a) zs)"

section \<open>series_to_obj, series_to_jsonline and the JSON-lines files (Image-classification-multilabel-lst.ipynb)\<close>

text \<open>
  The objects handed to \<open>json.dumps\<close>: strings, numbers, lists and dictionaries. A
  dictionary keeps its keys in insertion order, so it is a list of (key, value) pairs
  without repeated keys; \<^verbatim>\<open>d[k] = v\<close> replaces the value of a key that is there and
  appends one that is not.
\<close>

datatype 'v py_value =
    PyStr string
  | PyNum 'v
  | PyList "'v py_value list"
  | PyDict "(string \<times> 'v py_value) list"

fun dict_set :: "(string \<times> 'a) list \<Rightarrow> string \<Rightarrow> 'a \<Rightarrow> (string \<times> 'a) list" where
  "dict_set [] k v = [(k, v)]"
| "dict_set ((k', v') # d) k v = (if k' = k then (k, v) # d else (k', v') # dict_set d k v)"

text \<open>
  \<open>json.dumps\<close> with its default separators. How a string is quoted and escaped
  (\<open>quote\<close>) and how a number is printed (\<open>num\<close>) are parameters.
\<close>

fun json_dumps :: "(string \<Rightarrow> string) \<Rightarrow> ('v \<Rightarrow> string) \<Rightarrow> 'v py_value \<Rightarrow> string" where
  "json_dumps quote num (PyStr s) = quote s"
| "json_dumps quote num (PyNum x) = num x"
| "json_dumps quote num (PyList xs) =
     ''['' @ str_join '', '' (map (json_dumps quote num) xs) @ '']''"
| "json_dumps quote num (PyDict kvs) =
     ''{'' @ str_join '', '' (map (\<lambda>(k, v). quote k @ '': '' @ json_dumps quote num v) kvs) @ ''}''"

text \<open>
  A \<open>pandas.Series\<close>: its index (\<open>index\<close>) and its values (\<open>vals\<close>), of one length. \<open>ts.index[0]\<close> raises
  \<open>IndexError\<close> on an empty series; \<open>str\<close> at the type of the index is the parameter
  \<open>str_index\<close>; \<open>list(ts)\<close> is the list of the values. \<open>cat\<close> is \<open>None\<close> or a value.
\<close>

record ('i, 'v) series =
  index :: "'i list"
  vals :: "'v list"

definition series_to_obj ::
  "('i \<Rightarrow> string) \<Rightarrow> ('i, 'v) series \<Rightarrow> 'v py_value option \<Rightarrow> py_error + (string \<times> 'v py_value) list"
where
  "series_to_obj str_index ts cat =
     (case index ts of
        [] \<Rightarrow> Inl IndexError
      | i0 # _ \<Rightarrow>
          (let obj = [(''start'', PyStr (str_index i0)), (''target'', PyList (map PyNum (vals ts)))];
               obj = (case cat of None \<Rightarrow> obj | Some c \<Rightarrow> dict_set obj ''cat'' c)
           in Inr obj))"

definition series_to_jsonline ::
  "(string \<Rightarrow> string) \<Rightarrow> ('v \<Rightarrow> string) \<Rightarrow> ('i \<Rightarrow> string) \<Rightarrow>
   ('i, 'v) series \<Rightarrow> 'v py_value option \<Rightarrow> py_error + string"
where
  "series_to_jsonline quote num str_index ts cat =
     (case series_to_obj str_index ts cat of
        Inl e \<Rightarrow> Inl e
      | Inr obj \<Rightarrow> Inr (json_dumps quote num (PyDict obj)))"

text \<open>
  The loop that writes \<open>train.json\<close> and \<open>test.json\<close>: for each series the encoded JSON
  line, then an encoded newline, appended to a file opened for writing. \<open>utf8\<close> is
  \<^verbatim>\<open>s.encode("utf-8")\<close>.
\<close>

fun write_jsonlines ::
  "(string \<Rightarrow> byte list) \<Rightarrow> (string \<Rightarrow> string) \<Rightarrow> ('v \<Rightarrow> string) \<Rightarrow> ('i \<Rightarrow> string) \<Rightarrow>
   ('i, 'v) series list \<Rightarrow> byte list \<Rightarrow> py_error + byte list"
where
  "write_jsonlines utf8 quote num str_index [] f = Inr f"
| "write_jsonlines utf8 quote num str_index (ts # rest) f =
     (case series_to_jsonline quote num str_index ts None of
        Inl e \<Rightarrow> Inl e
      | Inr line \<Rightarrow>
          write_jsonlines utf8 quote num str_index rest (f @ utf8 line @ utf8 [CHR 0x0A]))"

text \<open>
  The object the claim about \<open>series_to_obj\<close> describes, written out; and a quoting
  of strings that escapes the quote, the backslash and the newline, for running the
  definitions on concrete data.
\<close>

definition series_obj :: "('i \<Rightarrow> string) \<Rightarrow> ('i, 'v) series \<Rightarrow> 'v py_value option \<Rightarrow> (string \<times> 'v py_value) list" where
  "series_obj str_index ts cat =
     [(''start'', PyStr (str_index (hd (index ts)))), (''target'', PyList (map PyNum (vals ts)))]
     @ (case cat of None \<Rightarrow> [] | Some c \<Rightarrow> [(''cat'', c)])"

definition quote_ascii :: "string \<Rightarrow> string" where
  "quote_ascii s =
     [CHR 0x22] @ concat (map (\<lambda>c. if c = CHR 0x22 then [CHR 0x5C, CHR 0x22]
                                     else if c = CHR 0x5C then [CHR 0x5C, CHR 0x5C]
                                     else if c = CHR 0x0A then [CHR 0x5C, CHR ''n'']
                                     else [c]) s) @ [CHR 0x22]"

section \<open>Waiting for training jobs and endpoints\<close>

text \<open>
  The managed service is not part of the repository. A notebook sees it through the
  responses to its \<open>describe_training_job\<close> and \<open>describe_endpoint\<close> calls: the
  parameter \<open>describe\<close> gives, for each \<open>k\<close>, the response to the \<open>k\<close>-th call. A
  notebook's effects are recorded as a list of events, in order; its variables are the
  fields of a record: \<open>status\<close>, the number of describe calls made so far, and, where the
  notebook has one, \<open>resp\<close>.
\<close>

record training_job_description =
  TrainingJobStatus :: string
  FailureReason :: string

record endpoint_description =
  EndpointStatus :: string
  EndpointArn :: string

datatype event = Describe | Sleep nat | Printed string | Wait

record notebook =
  status :: string
  calls :: nat
  events :: "event list"

record endpoint_notebook = notebook +
  resp :: endpoint_description

definition emit :: "event \<Rightarrow> 'a notebook_scheme \<Rightarrow> 'a notebook_scheme" where
  "emit e s = s\<lparr>events := events s @ [e]\<rparr>"

text \<open>\<^verbatim>\<open>while cond: body\<close>, which may run forever: then it has no result.\<close>

partial_function (option) while_loop :: "('s \<Rightarrow> bool) \<Rightarrow> ('s \<Rightarrow> 's) \<Rightarrow> 's \<Rightarrow> 's option" where
  "while_loop cond body s = (if cond s then while_loop cond body (body s) else Some s)"

text \<open>
  \<^verbatim>\<open>status = client.describe_training_job(TrainingJobName=job_name)["TrainingJobStatus"]\<close>
  and \<^verbatim>\<open>resp = sm.describe_endpoint(EndpointName=endpoint_name); status = resp["EndpointStatus"]\<close>.
\<close>

definition query_training_status ::
  "(nat \<Rightarrow> training_job_description) \<Rightarrow> 'a notebook_scheme \<Rightarrow> 'a notebook_scheme" where
  "query_training_status describe s =
     (emit Describe s)\<lparr>status := TrainingJobStatus (describe (calls s)), calls := calls s + 1\<rparr>"

definition query_endpoint ::
  "(nat \<Rightarrow> endpoint_description) \<Rightarrow> endpoint_notebook \<Rightarrow> endpoint_notebook" where
  "query_endpoint describe s =
     (let s = (emit Describe s)\<lparr>resp := describe (calls s), calls := calls s + 1\<rparr>
      in s\<lparr>status := EndpointStatus (resp s)\<rparr>)"

text \<open>
  The training-job loop of Image-classification-multilabel-lst.ipynb (XGBoost section):
  \<^verbatim>\<open>while status != "Completed" and status != "Failed": time.sleep(60); status = ...; print(status)\<close>,
  after a first query and print.
\<close>

definition training_poll_body :: "(nat \<Rightarrow> training_job_description) \<Rightarrow> notebook \<Rightarrow> notebook" where
  "training_poll_body describe s =
     (let s = emit (Sleep 60) s;
          s = query_training_status describe s
      in emit (Printed (status s)) s)"

definition training_poll_loop :: "(nat \<Rightarrow> training_job_description) \<Rightarrow> notebook \<Rightarrow> notebook option" where
  "training_poll_loop describe s =
     while_loop (\<lambda>s. status s \<noteq> ''Completed'' \<and> status s \<noteq> ''Failed'') (training_poll_body describe) s"

definition training_poll :: "(nat \<Rightarrow> training_job_description) \<Rightarrow> notebook \<Rightarrow> notebook option" where
  "training_poll describe s =
     (let s = query_training_status describe s;
          s = emit (Printed (status s)) s
      in training_poll_loop describe s)"

text \<open>
  The endpoint loop of xgboost_mnist.ipynb:
  \<^verbatim>\<open>while status == "Creating": time.sleep(60); resp = ...; status = ...; print(f"Status: {status}")\<close>,
  after a first query and print and before two last prints.
\<close>

definition endpoint_poll_body_mnist :: "(nat \<Rightarrow> endpoint_description) \<Rightarrow> endpoint_notebook \<Rightarrow> endpoint_notebook" where
  "endpoint_poll_body_mnist describe s =
     (let s = emit (Sleep 60) s;
          s = query_endpoint describe s
      in emit (Printed (''Status: '' @ status s)) s)"

definition endpoint_poll_loop_mnist ::
  "(nat \<Rightarrow> endpoint_description) \<Rightarrow> endpoint_notebook \<Rightarrow> endpoint_notebook option" where
  "endpoint_poll_loop_mnist describe s =
     while_loop (\<lambda>s. status s = ''Creating'') (endpoint_poll_body_mnist describe) s"

definition endpoint_poll_mnist ::
  "(nat \<Rightarrow> endpoint_description) \<Rightarrow> endpoint_notebook \<Rightarrow> endpoint_notebook option" where
  "endpoint_poll_mnist describe s =
     (let s = query_endpoint describe s;
          s = emit (Printed (''Status: '' @ status s)) s
      in case endpoint_poll_loop_mnist describe s of
           None \<Rightarrow> None
         | Some s \<Rightarrow>
             Some (emit (Printed (''Status: '' @ status s))
                    (emit (Printed (''Arn: '' @ EndpointArn (resp s))) s)))"

text \<open>
  The endpoint loop of Image-classification-multilabel-lst.ipynb (XGBoost section):
  \<^verbatim>\<open>while status == "Creating": print(f"Status: {status}"); time.sleep(60); resp = ...; status = ...\<close>.
\<close>

definition endpoint_poll_body_multilabel ::
  "(nat \<Rightarrow> endpoint_description) \<Rightarrow> endpoint_notebook \<Rightarrow> endpoint_notebook" where
  "endpoint_poll_body_multilabel describe s =
     (let s = emit (Printed (''Status: '' @ status s)) s;
          s = emit (Sleep 60) s
      in query_endpoint describe s)"

definition endpoint_poll_loop_multilabel ::
  "(nat \<Rightarrow> endpoint_description) \<Rightarrow> endpoint_notebook \<Rightarrow> endpoint_notebook option" where
  "endpoint_poll_loop_multilabel describe s =
     while_loop (\<lambda>s. status s = ''Creating'') (endpoint_poll_body_multilabel describe) s"

definition endpoint_poll_multilabel ::
  "(nat \<Rightarrow> endpoint_description) \<Rightarrow> endpoint_notebook \<Rightarrow> endpoint_notebook option" where
  "endpoint_poll_multilabel describe s =
     (let s = query_endpoint describe s
      in case endpoint_poll_loop_multilabel describe s of
           None \<Rightarrow> None
         | Some s \<Rightarrow>
             Some (emit (Printed (''Status: '' @ status s))
                    (emit (Printed (''Arn: '' @ EndpointArn (resp s))) s)))"

text \<open>
  When a loop stops: \<open>first_at P f k\<close> says that \<open>k\<close> is the first index at which the
  sequence \<open>f\<close> satisfies \<open>P\<close>.
\<close>

definition first_at :: "('a \<Rightarrow> bool) \<Rightarrow> (nat \<Rightarrow> 'a) \<Rightarrow> nat \<Rightarrow> bool" where
  "first_at P f k = (P (f k) \<and> (\<forall>j<k. \<not> P (f j)))"

definition training_terminal :: "string \<Rightarrow> bool" where
  "training_terminal st = (st = ''Completed'' \<or> st = ''Failed'')"

definition endpoint_terminal :: "string \<Rightarrow> bool" where
  "endpoint_terminal st = (st \<noteq> ''Creating'')"

text \<open>
  The statuses a notebook observes from a state \<open>s\<close> on, and the events of each loop
  when it stops after \<open>k\<close> iterations: the first query, then for each iteration a sleep
  of 60 seconds, a query and a print (xgboost_mnist.ipynb and the training loop), or a
  print, a sleep of 60 seconds and a query (Image-classification-multilabel-lst.ipynb).
\<close>

definition training_statuses :: "(nat \<Rightarrow> training_job_description) \<Rightarrow> 'a notebook_scheme \<Rightarrow> nat \<Rightarrow> string" where
  "training_statuses describe s j = TrainingJobStatus (describe (calls s + j))"

definition endpoint_statuses :: "(nat \<Rightarrow> endpoint_description) \<Rightarrow> 'a notebook_scheme \<Rightarrow> nat \<Rightarrow> string" where
  "endpoint_statuses describe s j = EndpointStatus (describe (calls s + j))"

definition training_poll_events :: "(nat \<Rightarrow> string) \<Rightarrow> nat \<Rightarrow> event list" where
  "training_poll_events st k =
     [Describe, Printed (st 0)]
     @ concat (map (\<lambda>i. [Sleep 60, Describe, Printed (st i)]) [1..<Suc k])"

definition endpoint_poll_events_mnist :: "(nat \<Rightarrow> string) \<Rightarrow> nat \<Rightarrow> event list" where
  "endpoint_poll_events_mnist st k =
     [Describe, Printed (''Status: '' @ st 0)]
     @ concat (map (\<lambda>i. [Sleep 60, Describe, Printed (''Status: '' @ st i)]) [1..<Suc k])"

definition endpoint_poll_events_multilabel :: "(nat \<Rightarrow> string) \<Rightarrow> nat \<Rightarrow> event list" where
  "endpoint_poll_events_multilabel st k =
     [Describe]
     @ concat (map (\<lambda>i. [Printed (''Status: '' @ st (i - 1)), Sleep 60, Describe]) [1..<Suc k])"

section \<open>Checking the status after waiting\<close>











section \<open>visualize_detection (xgboost_mnist.ipynb and Image-classification-multilabel-lst.ipynb)\<close>

text \<open>
  A detection is a row \<open>(klass, score, x0, y0, x1, y1)\<close> of Python floats, and so is
  \<open>thresh\<close>. \<open>xs[i]\<close> on a list takes a negative index from the end and raises
  \<open>IndexError\<close> out of range.
\<close>

type_synonym detection = "py_float \<times> py_float \<times> py_float \<times> py_float \<times> py_float \<times> py_float"

type_synonym colour = "py_float \<times> py_float \<times> py_float"

definition list_get :: "'a list \<Rightarrow> int \<Rightarrow> py_error + 'a" where
  "list_get xs i =
     (if 0 \<le> i \<and> i < int (length xs) then Inr (xs ! nat i)
      else if - int (length xs) \<le> i \<and> i < 0 then Inr (xs ! nat (i + int (length xs)))
      else Inl IndexError)"

text \<open>
  \<^verbatim>\<open>int(x * n)\<close> for a float \<open>x\<close> and an integer \<open>n\<close>, as in \<^verbatim>\<open>int(x0 * width)\<close>: \<open>n\<close> is
  converted to a float, the product is rounded, and \<open>int\<close> truncates it; the conversions
  may raise.
\<close>

definition int_of_product :: "py_float \<Rightarrow> nat \<Rightarrow> py_error + int" where
  "int_of_product x n =
     (case float_of_int (int n) of
        Inl e \<Rightarrow> Inl e
      | Inr float_n \<Rightarrow> py_int (float_mul x float_n))"

text \<open>
  What matplotlib is asked to draw: \<^verbatim>\<open>plt.Rectangle((xmin, ymin), xmax - xmin, ymax - ymin, ...)\<close>
  added with \<open>add_patch\<close>, and the labels added with \<open>text\<close>. The state of the loop is the
  dictionary \<open>colors\<close>, the number of \<open>random.random()\<close> draws made (\<open>random k\<close> is the
  \<open>k\<close>-th draw), and the patches and texts on the axes.
\<close>

record rectangle =
  xy :: "int \<times> int"
  width :: int
  height :: int
  fill :: bool
  edgecolor :: colour
  linewidth :: py_float

record text_label =
  position :: "int \<times> int"
  content :: string
  facecolor :: colour

record axes =
  colors :: "int \<rightharpoonup> colour"
  draws :: nat
  patches :: "rectangle list"
  texts :: "text_label list"

text \<open>
  One iteration of \<^verbatim>\<open>for det in dets\<close>, with the image's \<open>height\<close> and \<open>width\<close>. \<open>fmt_score\<close>
  is \<^verbatim>\<open>'{:.3f}'.format(score)\<close>. The result is the new state and the exception raised, if
  any: \<open>int(klass)\<close> is evaluated before \<open>colors\<close> is updated, the four corners before the
  rectangle is added, and the rectangle is added before the class name is looked up.
\<close>

definition vis_step ::
  "(nat \<Rightarrow> py_float) \<Rightarrow> (py_float \<Rightarrow> string) \<Rightarrow> nat \<Rightarrow> nat \<Rightarrow> string list \<Rightarrow> py_float \<Rightarrow>
   detection \<Rightarrow> axes \<Rightarrow> axes \<times> py_error option" where
  "vis_step random fmt_score img_height img_width classes thresh det s =
     (case det of (klass, score, x0, y0, x1, y1) \<Rightarrow>
        if float_lt score thresh then (s, None)
        else
          (case py_int klass of
             Inl e \<Rightarrow> (s, Some e)
           | Inr cls_id \<Rightarrow>
               (let s = (if colors s cls_id = None
                         then s\<lparr>colors := (colors s)(cls_id \<mapsto>
                                     (random (draws s), random (draws s + 1), random (draws s + 2))),
                                draws := draws s + 3\<rparr>
                         else s)
                in case int_of_product x0 img_width of
                     Inl e \<Rightarrow> (s, Some e)
                   | Inr xmin \<Rightarrow>
                (case int_of_product y0 img_height of
                     Inl e \<Rightarrow> (s, Some e)
                   | Inr ymin \<Rightarrow>
                (case int_of_product x1 img_width of
                     Inl e \<Rightarrow> (s, Some e)
                   | Inr xmax \<Rightarrow>
                (case int_of_product y1 img_height of
                     Inl e \<Rightarrow> (s, Some e)
                   | Inr ymax \<Rightarrow>
                       (let rect = \<lparr>xy = (xmin, ymin), width = xmax - xmin, height = ymax - ymin,
                                    fill = False, edgecolor = the (colors s cls_id),
                                    linewidth = Finite 3.5\<rparr>;
                            s = s\<lparr>patches := patches s @ [rect]\<rparr>;
                            class_name = str_int cls_id
                        in case (if classes \<noteq> [] \<and> int (length classes) > cls_id
                                 then list_get classes cls_id else Inr class_name) of
                             Inl e \<Rightarrow> (s, Some e)
                           | Inr class_name \<Rightarrow>
                               (s\<lparr>texts := texts s @
                                    [\<lparr>position = (xmin, ymin - 2),
                                      content = class_name @ '' '' @ fmt_score score,
                                      facecolor = the (colors s cls_id)\<rparr>]\<rparr>,
                                None))))))))"

fun vis_loop ::
  "(nat \<Rightarrow> py_float) \<Rightarrow> (py_float \<Rightarrow> string) \<Rightarrow> nat \<Rightarrow> nat \<Rightarrow> string list \<Rightarrow> py_float \<Rightarrow>
   detection list \<Rightarrow> axes \<Rightarrow> axes \<times> py_error option" where
  "vis_loop random fmt_score img_height img_width classes thresh [] s = (s, None)"
| "vis_loop random fmt_score img_height img_width classes thresh (det # dets) s =
     (case vis_step random fmt_score img_height img_width classes thresh det s of
        (s', Some e) \<Rightarrow> (s', Some e)
      | (s', None) \<Rightarrow> vis_loop random fmt_score img_height img_width classes thresh dets s')"

text \<open>
  \<^verbatim>\<open>visualize_detection(img_file, dets, classes, thresh)\<close>: the image read from \<open>img_file\<close>
  enters through its shape \<open>(height, width)\<close>; the loop starts from empty \<open>colors\<close> on
  axes that show only the image. \<open>plt.show()\<close> follows the loop and adds nothing to the
  axes.
\<close>

definition visualize_detection ::
  "(nat \<Rightarrow> py_float) \<Rightarrow> (py_float \<Rightarrow> string) \<Rightarrow> nat \<times> nat \<Rightarrow> detection list \<Rightarrow> string list \<Rightarrow>
   py_float \<Rightarrow> axes \<times> py_error option" where
  "visualize_detection random fmt_score shape dets classes thresh =
     (let img_height = fst shape;
          img_width = snd shape
      in vis_loop random fmt_score img_height img_width classes thresh dets
           \<lparr>colors = Map.empty, draws = 0, patches = [], texts = []\<rparr>)"

text \<open>
  The corners of a rectangle given by its anchor, width and height, and the corners the
  claim about \<open>visualize_detection\<close> names for a detection:
  \<open>(int(x0 * width), int(y0 * height))\<close> and \<open>(int(x1 * width), int(y1 * height))\<close>, when
  these four can be evaluated.
\<close>

definition top_left :: "rectangle \<Rightarrow> int \<times> int" where
  "top_left r = xy r"

definition bottom_right :: "rectangle \<Rightarrow> int \<times> int" where
  "bottom_right r = (fst (xy r) + width r, snd (xy r) + height r)"

definition det_score :: "detection \<Rightarrow> py_float" where
  "det_score det = (case det of (klass, score, x0, y0, x1, y1) \<Rightarrow> score)"

definition det_corners :: "nat \<Rightarrow> nat \<Rightarrow> detection \<Rightarrow> py_error + ((int \<times> int) \<times> (int \<times> int))" where
  "det_corners img_height img_width det =
     (case det of (klass, score, x0, y0, x1, y1) \<Rightarrow>
        (case int_of_product x0 img_width of
           Inl e \<Rightarrow> Inl e
         | Inr xmin \<Rightarrow>
        (case int_of_product y0 img_height of
           Inl e \<Rightarrow> Inl e
         | Inr ymin \<Rightarrow>
        (case int_of_product x1 img_width of
           Inl e \<Rightarrow> Inl e
         | Inr xmax \<Rightarrow>
        (case int_of_product y1 img_height of
           Inl e \<Rightarrow> Inl e
         | Inr ymax \<Rightarrow> Inr ((xmin, ymin), (xmax, ymax)))))))"

definition drawn :: "py_float \<Rightarrow> detection \<Rightarrow> bool" where
  "drawn thresh det = (\<not> float_lt (det_score det) thresh)"

definition corners :: "rectangle \<Rightarrow> py_error + ((int \<times> int) \<times> (int \<times> int))" where
  "corners r = Inr (top_left r, bottom_right r)"

section \<open>Collecting word vectors and similarity (blazingtext_word2vec_subwords_text8.ipynb)\<close>

text \<open>
  A word vector is a one-dimensional numpy array of floats, modelled as a list of reals.
  \<open>np.linalg.norm\<close> is the Euclidean norm and \<open>np.dot\<close> the inner product, which raises
  when the lengths differ. Dividing numpy floats by zero gives a warning and an infinite
  or undefined result rather than an exception; the model marks that outcome as
  \<open>ZeroDivisionError\<close>.
\<close>

definition np_norm :: "real list \<Rightarrow> real" where
  "np_norm v = sqrt (sum_list (map (\<lambda>x. x * x) v))"

definition np_dot :: "real list \<Rightarrow> real list \<Rightarrow> py_error + real" where
  "np_dot v1 v2 =
     (if length v1 = length v2 then Inr (sum_list (map (\<lambda>(x, y). x * y) (zip v1 v2)))
      else Inl ValueError)"

definition np_divide :: "real \<Rightarrow> real \<Rightarrow> py_error + real" where
  "np_divide a b = (if b = 0 then Inl ZeroDivisionError else Inr (a / b))"

text \<open>\<^verbatim>\<open>similarity(v1, v2)\<close>: \<^verbatim>\<open>np.dot(v1, v2) / n1 / n2\<close>.\<close>

definition similarity :: "real list \<Rightarrow> real list \<Rightarrow> py_error + real" where
  "similarity v1 v2 =
     (let n1 = np_norm v1;
          n2 = np_norm v2
      in case np_dot v1 v2 of
           Inl e \<Rightarrow> Inl e
         | Inr d \<Rightarrow>
             (case np_divide d n1 of
                Inl e \<Rightarrow> Inl e
              | Inr q \<Rightarrow> np_divide q n2))"

text \<open>
  The loop that fills the dictionary \<open>vectors\<close> (the field \<open>word_vectors\<close> of the
  loop's state). \<open>predict\<close> stands for the endpoint
  together with the JSON encoding of the request and decoding of the response: it maps
  the words of a batch to a list of (word, vector) records. \<open>store_vectors\<close> is the inner
  \<^verbatim>\<open>for i in vecs\<close>, which skips a vector of norm zero; \<open>collect_body\<close> is one iteration of
  \<^verbatim>\<open>while len(vectors) != total_words\<close>, a loop that need not terminate.
\<close>

record collecting =
  word_vectors :: "(string \<times> real list) list"
  batch_start :: int
  batch_end :: int

fun store_vectors :: "(string \<times> real list) list \<Rightarrow> (string \<times> real list) list \<Rightarrow> (string \<times> real list) list" where
  "store_vectors [] vectors = vectors"
| "store_vectors ((word, arr) # vecs) vectors =
     (if np_norm arr = 0 then store_vectors vecs vectors
      else store_vectors vecs (dict_set vectors word arr))"

definition collect_body ::
  "(string list \<Rightarrow> (string \<times> real list) list) \<Rightarrow> string list \<Rightarrow> int \<Rightarrow> collecting \<Rightarrow> collecting" where
  "collect_body predict query_words batch_size s =
     (let total_words = int (length query_words);
          s = s\<lparr>batch_end := min (batch_end s) total_words\<rparr>;
          subset_words = py_slice query_words (batch_start s) (batch_end s);
          vecs = predict subset_words;
          s = s\<lparr>word_vectors := store_vectors vecs (word_vectors s)\<rparr>
      in s\<lparr>batch_start := batch_start s + batch_size, batch_end := batch_end s + batch_size\<rparr>)"

definition collect_start :: "int \<Rightarrow> collecting" where
  "collect_start batch_size = \<lparr>word_vectors = [], batch_start = 0, batch_end = 0 + batch_size\<rparr>"

definition collect_vectors ::
  "(string list \<Rightarrow> (string \<times> real list) list) \<Rightarrow> string list \<Rightarrow> int \<Rightarrow> collecting option" where
  "collect_vectors predict query_words batch_size =
     while_loop (\<lambda>s. length (word_vectors s) \<noteq> length query_words)
       (collect_body predict query_words batch_size) (collect_start batch_size)"

text \<open>
  The lookup that precedes \<open>similarity\<close> in the correlation loop:
  \<^verbatim>\<open>if (word1 in vectors) and (word2 in vectors): d = similarity(vectors[word1], vectors[word2])\<close>;
  a pair with a missing word is dropped.
\<close>

definition word_similarity ::
  "(string \<times> real list) list \<Rightarrow> string \<Rightarrow> string \<Rightarrow> (py_error + real) option" where
  "word_similarity vectors word1 word2 =
     (case (map_of vectors word1, map_of vectors word2) of
        (Some v1, Some v2) \<Rightarrow> Some (similarity v1 v2)
      | _ \<Rightarrow> None)"

definition nonzero_norms :: "(string \<times> real list) list \<Rightarrow> bool" where
  "nonzero_norms vectors = list_all (\<lambda>(word, arr). np_norm arr \<noteq> 0) vectors"

section \<open>Stripping the label prefix from a copy of the predictions (BlazingText language identification notebook)\<close>

text \<open>
  \<open>predictions\<close> is the decoded JSON response: a list of dictionaries, each with a
  \<open>label\<close> list and a \<open>prob\<close> list. The loop assigns into the dictionaries, so they are
  objects in a store: a cell for every address and the next free address. The list
  \<open>predictions\<close> holds the addresses of its dictionaries; what a dictionary holds
  (strings, numbers, lists of them) is never mutated by this code and is kept as a value.
\<close>

type_synonym py_dict = "(string \<times> real py_value) list"

record store =
  cells :: "nat \<Rightarrow> py_dict"
  next_free :: nat

definition allocate :: "py_dict \<Rightarrow> store \<Rightarrow> nat \<times> store" where
  "allocate d h = (next_free h, h\<lparr>cells := (cells h)(next_free h := d), next_free := next_free h + 1\<rparr>)"

text \<open>
  \<open>copy.deepcopy\<close> on a list of dictionaries: every dictionary met for the first time is
  copied into a new object, and \<open>memo\<close> maps an original that was already copied to its
  copy, so that a dictionary occurring twice in the list occurs twice in the copy.
\<close>

fun deepcopy_refs :: "nat list \<Rightarrow> (nat \<times> nat) list \<Rightarrow> store \<Rightarrow> nat list \<times> (nat \<times> nat) list \<times> store" where
  "deepcopy_refs [] memo h = ([], memo, h)"
| "deepcopy_refs (a # as) memo h =
     (case map_of memo a of
        Some a' \<Rightarrow>
          (case deepcopy_refs as memo h of (as', memo', h') \<Rightarrow> (a' # as', memo', h'))
      | None \<Rightarrow>
          (case allocate (cells h a) h of
             (a', h1) \<Rightarrow>
               (case deepcopy_refs as ((a, a') # memo) h1 of
                  (as', memo', h') \<Rightarrow> (a' # as', memo', h'))))"

definition deepcopy :: "nat list \<Rightarrow> store \<Rightarrow> nat list \<times> store" where
  "deepcopy xs h = (case deepcopy_refs xs [] h of (ys, memo, h') \<Rightarrow> (ys, h'))"

text \<open>
  \<^verbatim>\<open>x[0]\<close>, \<^verbatim>\<open>x[9:]\<close> and \<^verbatim>\<open>x.upper()\<close> on the values a dictionary can hold. Indexing a
  string gives the string of its first character. \<open>upper\<close> is \<open>str.upper\<close>, a parameter.
\<close>

definition subscript0 :: "real py_value \<Rightarrow> py_error + real py_value" where
  "subscript0 x =
     (case x of
        PyList [] \<Rightarrow> Inl IndexError
      | PyList (y # ys) \<Rightarrow> Inr y
      | PyStr [] \<Rightarrow> Inl IndexError
      | PyStr (c # cs) \<Rightarrow> Inr (PyStr [c])
      | PyDict d \<Rightarrow> Inl KeyError
      | PyNum n \<Rightarrow> Inl TypeError)"

definition slice_from9 :: "real py_value \<Rightarrow> py_error + real py_value" where
  "slice_from9 x =
     (case x of
        PyList ys \<Rightarrow> Inr (PyList (py_slice ys 9 (int (length ys))))
      | PyStr s \<Rightarrow> Inr (PyStr (py_slice s 9 (int (length s))))
      | PyDict d \<Rightarrow> Inl TypeError
      | PyNum n \<Rightarrow> Inl TypeError)"

definition call_upper :: "(string \<Rightarrow> string) \<Rightarrow> real py_value \<Rightarrow> py_error + real py_value" where
  "call_upper upper x = (case x of PyStr s \<Rightarrow> Inr (PyStr (upper s)) | _ \<Rightarrow> Inl AttributeError)"

text \<open>
  The body \<^verbatim>\<open>output['label'] = output['label'][0][9:].upper()\<close> for the dictionary at
  address \<open>output\<close>, and the loop over \<open>predictions_copy\<close>. The result is the store and
  the exception raised, if any.
\<close>

definition strip_label :: "(string \<Rightarrow> string) \<Rightarrow> nat \<Rightarrow> store \<Rightarrow> store \<times> py_error option" where
  "strip_label upper output h =
     (case map_of (cells h output) ''label'' of
        None \<Rightarrow> (h, Some KeyError)
      | Some labels \<Rightarrow>
          (case subscript0 labels of
             Inl e \<Rightarrow> (h, Some e)
           | Inr first \<Rightarrow>
               (case slice_from9 first of
                  Inl e \<Rightarrow> (h, Some e)
                | Inr rest \<Rightarrow>
                    (case call_upper upper rest of
                       Inl e \<Rightarrow> (h, Some e)
                     | Inr v \<Rightarrow>
                         (h\<lparr>cells := (cells h)(output := dict_set (cells h output) ''label'' v)\<rparr>,
                          None)))))"

fun strip_labels :: "(string \<Rightarrow> string) \<Rightarrow> nat list \<Rightarrow> store \<Rightarrow> store \<times> py_error option" where
  "strip_labels upper [] h = (h, None)"
| "strip_labels upper (output # outputs) h =
     (case strip_label upper output h of
        (h', Some e) \<Rightarrow> (h', Some e)
      | (h', None) \<Rightarrow> strip_labels upper outputs h')"

text \<open>The cell: \<open>predictions_copy = copy.deepcopy(predictions)\<close>, then the loop.\<close>

definition strip_labels_of_copy ::
  "(string \<Rightarrow> string) \<Rightarrow> nat list \<Rightarrow> store \<Rightarrow> nat list \<times> store \<times> py_error option" where
  "strip_labels_of_copy upper predictions h =
     (case deepcopy predictions h of
        (predictions_copy, h1) \<Rightarrow> (predictions_copy, strip_labels upper predictions_copy h1))"

text \<open>
  The first label of a response dictionary, when its \<open>label\<close> field is a list that
  starts with a string; and upper case on ASCII letters, for running the definitions.
\<close>

definition first_label :: "py_dict \<Rightarrow> string option" where
  "first_label d =
     (case map_of d ''label'' of
        Some (PyList (PyStr s # rest)) \<Rightarrow> Some s
      | _ \<Rightarrow> None)"

definition upper_ascii :: "string \<Rightarrow> string" where
  "upper_ascii s =
     map (\<lambda>c. case map_of (zip ''abcdefghijklmnopqrstuvwxyz'' ''ABCDEFGHIJKLMNOPQRSTUVWXYZ'') c of
                Some u \<Rightarrow> u
              | None \<Rightarrow> c) s"

chapter \<open>Properties\<close>

section \<open>Theorems: Python floats\<close>

lemma pow2_powr: "pow2 e = 2 powr (real_of_int e)"
proof (cases "0 \<le> e")
  case True
  then have "real_of_int e = real (nat e)"
    by simp
  then have "(2 :: real) powr (real_of_int e) = 2 ^ nat e"
    by (simp only: powr_realpow [of 2 "nat e"] zero_less_numeral)
  then show ?thesis
    using True by (simp add: pow2_def)
next
  case False
  then have "real_of_int e = - real (nat (- e))"
    by simp
  then have "(2 :: real) powr (real_of_int e) = 1 / 2 ^ nat (- e)"
    by (simp only: powr_minus_divide powr_realpow [of 2 "nat (- e)"] zero_less_numeral)
  then show ?thesis
    using False by (simp add: pow2_def)
qed

lemma pow2_pos [simp]: "0 < pow2 e"
  by (simp add: pow2_powr)

lemma pow2_nonneg [simp]: "0 \<le> pow2 e"
  by (simp add: pow2_powr)

lemma pow2_neq0 [simp]: "pow2 e \<noteq> 0"
  by (simp add: pow2_powr)

lemma pow2_mono: "a \<le> b \<Longrightarrow> pow2 a \<le> pow2 b"
  by (simp add: pow2_powr)

lemma pow2_add: "pow2 (a + b) = pow2 a * pow2 b"
  by (simp add: pow2_powr powr_add)

lemma pow2_nat: "pow2 (int n) = 2 ^ n"
  by (simp add: pow2_def)

lemma quantum_exp_spec:
  "- 1074 \<le> quantum_exp x \<and> quantum_exp x \<le> 971
   \<and> (\<bar>x\<bar> < pow2 1024 \<longrightarrow> \<bar>x\<bar> < pow2 (quantum_exp x + 53))
   \<and> (quantum_exp x \<noteq> - 1074 \<longrightarrow> pow2 (quantum_exp x + 52) \<le> \<bar>x\<bar>)"
proof (cases "find (\<lambda>e. \<bar>x\<bar> < pow2 (e + 53)) [- 1074..971]")
  case None
  then have all: "\<And>e. e \<in> set [- 1074..971] \<Longrightarrow> \<not> \<bar>x\<bar> < pow2 (e + 53)"
    unfolding find_None_iff by blast
  have "\<not> \<bar>x\<bar> < pow2 (971 + 53)" "\<not> \<bar>x\<bar> < pow2 (970 + 53)"
    by (rule all, simp del: upto_rec_numeral)+
  then show ?thesis
    using None by (simp add: quantum_exp_def del: upto_rec_numeral)
next
  case (Some e)
  then obtain i where i: "i < length [- 1074..971]" and P: "\<bar>x\<bar> < pow2 ([- 1074..971] ! i + 53)"
    and e: "e = [- 1074..971] ! i" and least: "\<And>j. j < i \<Longrightarrow> \<not> \<bar>x\<bar> < pow2 ([- 1074..971] ! j + 53)"
    unfolding find_Some_iff by blast
  have bound: "int i \<le> 2045"
    using i by (simp del: upto_rec_numeral)
  then have ei: "e = - 1074 + int i"
    using e by (simp add: nth_upto del: upto_rec_numeral)
  have below: "pow2 (e + 52) \<le> \<bar>x\<bar>" if "e \<noteq> - 1074"
  proof -
    from that ei have "0 < i"
      by simp
    then have "i - 1 < i"
      by simp
    then have "\<not> \<bar>x\<bar> < pow2 ([- 1074..971] ! (i - 1) + 53)"
      by (rule least)
    moreover have "[- 1074..971] ! (i - 1) = e - 1"
      using bound \<open>0 < i\<close> ei by (simp add: nth_upto of_nat_diff del: upto_rec_numeral)
    ultimately show ?thesis
      by (simp add: add.commute del: upto_rec_numeral)
  qed
  have "quantum_exp x = e"
    using Some by (simp add: quantum_exp_def del: upto_rec_numeral)
  then show ?thesis
    using ei bound P e below by (simp del: upto_rec_numeral)
qed

lemma quantum_exp_le:
  assumes "\<bar>x\<bar> < pow2 (k + 53)" and "- 1074 \<le> k"
  shows "quantum_exp x \<le> k"
proof (rule ccontr)
  assume "\<not> quantum_exp x \<le> k"
  then have less: "k + 1 \<le> quantum_exp x"
    by simp
  with assms(2) have "quantum_exp x \<noteq> - 1074"
    by simp
  then have "pow2 (quantum_exp x + 52) \<le> \<bar>x\<bar>"
    using quantum_exp_spec [of x] by blast
  moreover have "pow2 (k + 53) \<le> pow2 (quantum_exp x + 52)"
    using less by (intro pow2_mono) simp
  ultimately show False
    using assms(1) by simp
qed

lemma round_half_even_near: "\<bar>of_int (round_half_even y) - y\<bar> \<le> 1 / 2"
  unfolding round_half_even_def Let_def by (auto simp: abs_if) linarith+

lemma round_half_even_int [simp]: "round_half_even (of_int n) = n"
  by (simp add: round_half_even_def)

lemma double_near:
  assumes "\<bar>x\<bar> < pow2 (k + 53)" and "- 1074 \<le> k"
  shows "\<bar>double x - x\<bar> \<le> pow2 k / 2"
proof -
  let ?q = "pow2 (quantum_exp x)"
  have "\<bar>of_int (round_half_even (x / ?q)) - x / ?q\<bar> \<le> 1 / 2"
    by (rule round_half_even_near)
  then have "\<bar>of_int (round_half_even (x / ?q)) - x / ?q\<bar> * ?q \<le> 1 / 2 * ?q"
    by (intro mult_right_mono) simp_all
  moreover have "\<bar>of_int (round_half_even (x / ?q)) - x / ?q\<bar> * ?q = \<bar>double x - x\<bar>"
  proof -
    have "\<bar>of_int (round_half_even (x / ?q)) - x / ?q\<bar> * ?q =
          \<bar>(of_int (round_half_even (x / ?q)) - x / ?q) * ?q\<bar>"
      by (simp add: abs_mult)
    also have "(of_int (round_half_even (x / ?q)) - x / ?q) * ?q = double x - x"
      by (simp add: double_def left_diff_distrib)
    finally show ?thesis .
  qed
  moreover have "?q \<le> pow2 k"
    using assms by (intro pow2_mono quantum_exp_le)
  ultimately show ?thesis
    by simp
qed

lemma double_int:
  assumes "\<bar>i\<bar> < 2 ^ 53"
  shows "double (of_int i) = of_int i"
proof -
  let ?e = "quantum_exp (of_int i)"
  have "\<bar>real_of_int i\<bar> < pow2 (0 + 53)"
  proof -
    have "pow2 (0 + 53) = 2 ^ 53"
      using pow2_nat [of 53] by simp
    moreover have "\<bar>real_of_int i\<bar> < 2 ^ 53"
      using assms by (metis of_int_abs of_int_less_numeral_power_cancel_iff)
    ultimately show ?thesis
      by simp
  qed
  then have e: "?e \<le> 0"
    by (rule quantum_exp_le) simp
  then have q: "pow2 ?e = 1 / 2 ^ nat (- ?e)"
    by (cases "?e = 0") (simp_all add: pow2_def)
  have "real_of_int i / pow2 ?e = of_int (i * 2 ^ nat (- ?e))"
    by (simp add: q)
  then have "round_half_even (real_of_int i / pow2 ?e) = i * 2 ^ nat (- ?e)"
    by (simp only: round_half_even_int)
  then show ?thesis
    by (simp add: double_def q)
qed

lemma round64_int:
  assumes "\<bar>i\<bar> < 2 ^ 53"
  shows "round64 (of_int i) = Finite (of_int i)"
proof -
  have "\<bar>real_of_int i\<bar> < 2 ^ 53"
    using assms by (metis of_int_abs of_int_less_numeral_power_cancel_iff)
  also have "(2 :: real) ^ 53 \<le> 2 ^ 1024"
    by (intro power_increasing) simp_all
  finally have "\<bar>real_of_int i\<bar> < pow2 1024"
    using pow2_nat [of 1024] by simp
  then show ?thesis
    by (simp add: round64_def double_int [OF assms])
qed

lemma quantum_exp_eq:
  assumes "- 1074 \<le> e" and "e \<le> 971" and "\<bar>x\<bar> < pow2 (e + 53)"
    and "e = - 1074 \<or> pow2 (e + 52) \<le> \<bar>x\<bar>"
  shows "quantum_exp x = e"
proof (rule antisym)
  show "quantum_exp x \<le> e"
    using assms(3,1) by (rule quantum_exp_le)
  show "e \<le> quantum_exp x"
  proof (rule ccontr)
    assume "\<not> e \<le> quantum_exp x"
    then have less: "quantum_exp x + 53 \<le> e + 52"
      by simp
    have "- 1074 \<le> quantum_exp x"
      using quantum_exp_spec [of x] by blast
    with less assms(4) have low: "pow2 (e + 52) \<le> \<bar>x\<bar>"
      by auto
    have "pow2 (e + 53) \<le> pow2 1024"
      using assms(2) by (intro pow2_mono) simp
    with assms(3) have "\<bar>x\<bar> < pow2 1024"
      by simp
    then have "\<bar>x\<bar> < pow2 (quantum_exp x + 53)"
      using quantum_exp_spec [of x] by blast
    also have "\<dots> \<le> pow2 (e + 52)"
      using less by (rule pow2_mono)
    finally show False
      using low by simp
  qed
qed

lemma double_at:
  assumes "quantum_exp x = e"
  shows "double x = of_int (round_half_even (x / pow2 e)) * pow2 e"
  using assms by (simp add: double_def)

lemma round64_small:
  assumes "\<bar>x\<bar> < pow2 (k + 53)" and "- 1074 \<le> k" and "k \<le> 970"
  shows "round64 x = Finite (double x)"
proof -
  have "\<bar>double x - x\<bar> \<le> pow2 k / 2"
    using assms(1,2) by (rule double_near)
  then have "\<bar>double x\<bar> \<le> \<bar>x\<bar> + pow2 k / 2"
    by linarith
  also have "\<dots> < pow2 (k + 53) + pow2 k"
    using assms(1) pow2_pos [of k] by linarith
  also have "\<dots> \<le> pow2 (k + 53) + pow2 (k + 53)"
    by (intro add_left_mono pow2_mono) simp
  also have "\<dots> = pow2 (k + 53 + 1)"
  proof -
    have "pow2 1 = 2"
      by (simp add: pow2_def)
    then show ?thesis
      by (simp only: pow2_add [of "k + 53" 1])
  qed
  also have "\<dots> \<le> pow2 1024"
    using assms(3) by (intro pow2_mono) simp
  finally show ?thesis
    by (simp add: round64_def)
qed

lemma round64_Ints:
  assumes "x \<in> \<int>" and "\<bar>x\<bar> < 2 ^ 53"
  shows "round64 x = Finite x"
proof -
  from assms(1) obtain i where x: "x = of_int i"
    by (rule Ints_cases)
  with assms(2) have "\<bar>real_of_int i\<bar> < 2 ^ 53"
    by simp
  then have "\<bar>i\<bar> < 2 ^ 53"
    by (metis of_int_abs of_int_less_numeral_power_cancel_iff)
  then show ?thesis
    unfolding x by (rule round64_int)
qed

lemma float_of_int_small:
  assumes "\<bar>i\<bar> < 2 ^ 53"
  shows "float_of_int i = Inr (Finite (of_int i))"
  by (simp add: float_of_int_def round64_int [OF assms])

lemma float_lt_iff_not_ge: "(\<not> float_lt a b) = (float_ge a b \<or> a = NaN \<or> b = NaN)"
  by (cases a; cases b) (auto simp: float_lt_def float_ge_def)

section \<open>Theorems: batch_predict\<close>

lemma batch_loop_min_feed:
  "batch_loop_min do_predict data batch_size offsets arrs =
     feed do_predict (chunks_min data batch_size offsets) arrs"
  by (induction offsets arbitrary: arrs) (simp_all add: chunks_min_def split: sum.splits)

lemma batch_loop_branch_feed:
  "batch_loop_branch do_predict data batch_size offsets arrs =
     feed do_predict (chunks_branch data batch_size offsets) arrs"
  by (induction offsets arbitrary: arrs) (simp_all add: chunks_branch_def split: sum.splits)

lemma chunks_agree: "chunks_min data batch_size offsets = chunks_branch data batch_size offsets"
  unfolding chunks_min_def chunks_branch_def
  by (rule map_cong) (simp_all add: min_def)

text \<open>
  Claim C8. For every list \<open>data\<close> and every \<open>batch_size > 0\<close>, the variant of
  \<open>batch_predict\<close> that slices \<^verbatim>\<open>data[offset : min(offset + batch_size, items)]\<close> and the
  variant that branches on \<^verbatim>\<open>offset + batch_size < items\<close> hand the same sequence of
  chunks to \<open>do_predict\<close>, and so return the same result (the same predictions, or the
  same exception) for the same \<open>do_predict\<close>.
\<close>

theorem batch_predict_variants_agree:
  assumes "0 < batch_size"
  shows "py_range 0 (int (length data)) batch_size =
           Inr (range_up 0 (int (length data)) batch_size)
       \<and> chunks_min data batch_size (range_up 0 (int (length data)) batch_size) =
           chunks_branch data batch_size (range_up 0 (int (length data)) batch_size)
       \<and> batch_predict_min do_predict data batch_size =
           feed do_predict (chunks_min data batch_size (range_up 0 (int (length data)) batch_size)) []
       \<and> batch_predict_branch do_predict data batch_size =
           feed do_predict (chunks_branch data batch_size (range_up 0 (int (length data)) batch_size)) []
       \<and> batch_predict_min do_predict data batch_size =
           batch_predict_branch do_predict data batch_size"
  using assms
  by (simp add: py_range_def batch_predict_min_def batch_predict_branch_def
      batch_loop_min_feed batch_loop_branch_feed chunks_agree)

theorem batch_predict_variants_agree_witness:
  "(0::int) < 3
   \<and> chunks_min [1, 2, 3, 4, 5, 6, 7 :: nat] 3 (range_up 0 7 3) = [[1, 2, 3], [4, 5, 6], [7]]
   \<and> chunks_branch [1, 2, 3, 4, 5, 6, 7 :: nat] 3 (range_up 0 7 3) = [[1, 2, 3], [4, 5, 6], [7]]
   \<and> batch_predict_min (\<lambda>xs. Inr (map Suc xs)) [1, 2, 3, 4, 5, 6, 7] 3 = Inr [2, 3, 4, 5, 6, 7, 8]
   \<and> batch_predict_branch (\<lambda>xs. Inr (map Suc xs)) [1, 2, 3, 4, 5, 6, 7] 3 = Inr [2, 3, 4, 5, 6, 7, 8]"
  using batch_predict_variants_agree [of 3 "[1, 2, 3, 4, 5, 6, 7 :: nat]" "\<lambda>xs. Inr (map Suc xs)"]
  by (simp add: chunks_min_def chunks_branch_def py_slice_def slice_bound_def)

section \<open>Theorems: to_libsvm\<close>

lemma str_join_positions:
  "str_join sep xs =
     concat (map (\<lambda>k. xs ! k @ (if k + 1 < length xs then sep else [])) [0..<length xs])"
proof (induction sep xs rule: str_join.induct)
  case (1 sep)
  show ?case by simp
next
  case (2 sep x)
  show ?case by simp
next
  case (3 sep x y ys)
  have "[0..<length (x # y # ys)] = 0 # map Suc [0..<length (y # ys)]"
    by (simp add: upt_conv_Cons map_Suc_upt del: upt_Suc)
  then show ?case using 3 by (simp add: comp_def del: upt_Suc)
qed

lemma length_py_enumerate [simp]: "length (py_enumerate i xs) = length xs"
  by (induction xs arbitrary: i) simp_all

lemma py_enumerate_nth:
  assumes "k < length xs"
  shows "py_enumerate i xs ! k = (i + k, xs ! k)"
  using assms
proof (induction xs arbitrary: i k)
  case Nil
  then show ?case by simp
next
  case (Cons x xs)
  then show ?case by (cases k) simp_all
qed

lemma libsvm_feature_nth:
  assumes "k < length vec"
  shows "libsvm_feature fmt_el (py_enumerate 0 vec ! k) = str_nat (k + 1) @ '':'' @ fmt_el (vec ! k)"
  using assms
  by (simp add: py_enumerate_nth libsvm_feature_def str_int_def nat_add_distrib)

lemma concat_map_upt_cong:
  assumes "\<And>k. k < n \<Longrightarrow> f k = g k"
  shows "concat (map f [0..<n]) = concat (map g [0..<n])"
  using assms by (induction n) simp_all

lemma libsvm_line_positions:
  "libsvm_line fmt_label fmt_el (label, vec) = libsvm_line_spec fmt_label fmt_el label vec"
proof -
  have "concat (map (\<lambda>k. map (libsvm_feature fmt_el) (py_enumerate 0 vec) ! k
                 @ (if k + 1 < length vec then '' '' else [])) [0..<length vec]) =
        concat (map (\<lambda>j. str_nat (j + 1) @ '':'' @ fmt_el (vec ! j)
                 @ (if j + 1 < length vec then '' '' else [])) [0..<length vec])"
    by (rule concat_map_upt_cong) (simp add: libsvm_feature_nth)
  then show ?thesis
    by (simp add: libsvm_line_def libsvm_line_spec_def str_join_positions)
qed

lemma libsvm_text_positions:
  assumes "length labels = length values"
  shows "libsvm_text fmt_label fmt_el labels values = libsvm_text_spec fmt_label fmt_el labels values"
proof -
  have "concat (map (\<lambda>k. map (libsvm_line fmt_label fmt_el) (zip labels values) ! k
                 @ (if k + 1 < length labels then [CHR 0x0A] else [])) [0..<length labels]) =
        concat (map (\<lambda>k. libsvm_line_spec fmt_label fmt_el (labels ! k) (values ! k)
                 @ (if k + 1 < length labels then [CHR 0x0A] else [])) [0..<length labels])"
    using assms by (intro concat_map_upt_cong) (simp add: libsvm_line_positions)
  then show ?thesis
    using assms by (simp add: libsvm_text_def libsvm_text_spec_def str_join_positions)
qed

text \<open>
  Claim C3. For labels and values of equal length, \<open>to_libsvm(f, labels, values)\<close> writes
  to \<open>f\<close> the UTF-8 encoding of one line per (label, vec) pair, in input order. A line is
  the label, a space, and the features of \<open>vec\<close> in order as \<open>index:value\<close> with indices
  from 1, separated by single spaces; the lines are joined by single newlines and nothing
  follows the last one. The function returns \<open>f\<close>, which for a fresh \<open>BytesIO\<close> holds
  exactly those bytes.
\<close>

theorem to_libsvm_writes_lines:
  assumes "length labels = length values"
  shows "to_libsvm utf8 fmt_label fmt_el f labels values =
           bytesio_write f (utf8 (libsvm_text_spec fmt_label fmt_el labels values))
       \<and> buf (to_libsvm utf8 fmt_label fmt_el BytesIO labels values) =
           utf8 (libsvm_text_spec fmt_label fmt_el labels values)"
  using assms
  by (simp add: to_libsvm_def libsvm_text_positions bytesio_write_def BytesIO_def)

theorem to_libsvm_writes_lines_witness:
  "length [5, 0 :: int] = length [[1, 0, 255], [7, 8 :: int]]
   \<and> libsvm_text_spec str_int str_int [5, 0] [[1, 0, 255], [7, 8]] =
        ''5 1:1 2:0 3:255'' @ [CHR 0x0A] @ ''0 1:7 2:8''
   \<and> buf (to_libsvm ascii str_int str_int BytesIO [5, 0] [[1, 0, 255], [7, 8]]) =
        ascii (''5 1:1 2:0 3:255'' @ [CHR 0x0A] @ ''0 1:7 2:8'')"
  using to_libsvm_writes_lines [of "[5, 0 :: int]" "[[1, 0, 255], [7, 8 :: int]]" ascii str_int str_int BytesIO]
  by (simp add: libsvm_text_spec_def libsvm_line_spec_def str_int_def str_nat.simps upt_rec
      bytesio_write_def BytesIO_def ascii_def)

section \<open>Theorems: upload_to_s3\<close>

lemma take_min_length: "take (min (length ys) n) ys = take n ys"
  by (simp add: min_def)

lemma slice_bound_nat: "slice_bound n (int k) = min n k"
  by (simp add: slice_bound_def)

lemma py_slice_chunk:
  "py_slice xs (int i * int n) ((int i + 1) * int n) = chunk n i xs"
proof -
  have "int i * int n = int (i * n)"
    by simp
  then have lo: "slice_bound (length xs) (int i * int n) = min (length xs) (i * n)"
    by (simp only: slice_bound_nat)
  have "(int i + 1) * int n = int ((i + 1) * n)"
    by (simp add: algebra_simps)
  then have hi: "slice_bound (length xs) ((int i + 1) * int n) = min (length xs) ((i + 1) * n)"
    by (simp only: slice_bound_nat)
  show ?thesis
  proof (cases "i * n \<le> length xs")
    case True
    have "(i + 1) * n = i * n + n"
      by simp
    with True have "min (length xs) ((i + 1) * n) - min (length xs) (i * n) = min (length xs - i * n) n"
      by (simp only: min_def) arith
    moreover have "take (min (length (drop (i * n) xs)) n) (drop (i * n) xs) = take n (drop (i * n) xs)"
      by (rule take_min_length)
    ultimately show ?thesis
      using True by (simp add: py_slice_def chunk_def lo hi Let_def min_absorb2 del: mult_Suc)
  next
    case False
    then show ?thesis
      by (simp add: py_slice_def chunk_def lo hi Let_def)
  qed
qed

lemma upload_loop_s3:
  "s3 (upload_loop utf8 fmt_label fmt_el bucket prefix partition_name labels vectors (int n)
         (map int is) w) =
   s3 w @ map (\<lambda>i. (bucket, s3_key prefix partition_name (int i),
                       utf8 (libsvm_text fmt_label fmt_el (chunk n i labels) (chunk n i vectors)))) is"
proof (induction "is" arbitrary: w)
  case Nil
  show ?case by simp
next
  case (Cons i "is")
  show ?case
    by (simp add: Cons Let_def py_slice_chunk write_to_s3_def print_def bytesio_read_def
        bytesio_seek_def to_libsvm_def bytesio_write_def BytesIO_def)
qed

lemma range_up_5: "range_up 0 5 1 = map int [0..<5]"
  by (simp add: upt_rec)

lemma chunks_concat:
  "concat (map (\<lambda>i. chunk n i xs) [0..<k]) = take (k * n) xs"
proof (induction k)
  case 0
  show ?case by simp
next
  case (Suc k)
  have "take (k * n) xs @ take n (drop (k * n) xs) = take (k * n + n) xs"
    by (simp add: take_add)
  with Suc show ?case by (simp add: chunk_def add.commute)
qed

lemma chunk_zip: "zip (chunk n i xs) (chunk n i ys) = chunk n i (zip xs ys)"
  by (simp add: chunk_def take_zip drop_zip)

lemma length_chunk:
  assumes "(i + 1) * n \<le> length xs"
  shows "length (chunk n i xs) = n"
  using assms by (simp add: chunk_def)

text \<open>
  Claim C9. With \<open>num_partition = 5\<close> and \<open>partition_bound = len(labels) div 5\<close>,
  \<open>upload_to_s3\<close> puts five objects to S3, \<open>examples0\<close> to \<open>examples4\<close>: object \<open>i\<close> is
  the libsvm text of the \<open>i\<close>-th run of \<open>partition_bound\<close> consecutive examples. Together
  the five runs are the first \<open>5 * partition_bound\<close> examples, each run has
  \<open>partition_bound\<close> of them, and the \<open>len(labels) mod 5\<close> examples after them are in no
  object.
\<close>

theorem upload_to_s3_five_chunks:
  assumes "length vectors = length labels"
  shows "s3 (upload_to_s3 utf8 fmt_label fmt_el bucket prefix partition_name (vectors, labels) w) =
           s3 w @ map (\<lambda>i. (bucket, s3_key prefix partition_name (int i),
                               utf8 (libsvm_text fmt_label fmt_el
                                       (chunk (length labels div 5) i labels)
                                       (chunk (length labels div 5) i vectors)))) [0..<5]
       \<and> concat (map (\<lambda>i. zip (chunk (length labels div 5) i labels)
                                (chunk (length labels div 5) i vectors)) [0..<5]) =
           take (5 * (length labels div 5)) (zip labels vectors)
       \<and> (\<forall>i<5. length (zip (chunk (length labels div 5) i labels)
                               (chunk (length labels div 5) i vectors)) = length labels div 5)
       \<and> length (drop (5 * (length labels div 5)) (zip labels vectors)) = length labels mod 5"
proof -
  let ?n = "length labels div 5"
  have bound: "int (length labels) div 5 = int ?n"
    by (simp add: zdiv_int)
  have uploads: "s3 (upload_to_s3 utf8 fmt_label fmt_el bucket prefix partition_name (vectors, labels) w) =
           s3 w @ map (\<lambda>i. (bucket, s3_key prefix partition_name (int i),
                               utf8 (libsvm_text fmt_label fmt_el (chunk ?n i labels) (chunk ?n i vectors)))) [0..<5]"
    unfolding upload_to_s3_def Let_def snd_conv fst_conv bound range_up_5
    by (rule upload_loop_s3)
  have together: "concat (map (\<lambda>i. zip (chunk ?n i labels) (chunk ?n i vectors)) [0..<5]) =
           take (5 * ?n) (zip labels vectors)"
    by (simp only: chunk_zip chunks_concat)
  have "length (chunk ?n i (zip labels vectors)) = ?n" if "i < 5" for i
  proof (rule length_chunk)
    from that have "(i + 1) * ?n \<le> 5 * ?n"
      by (intro mult_le_mono1) simp
    also have "\<dots> \<le> length labels"
      by simp
    finally show "(i + 1) * ?n \<le> length (zip labels vectors)"
      using assms by simp
  qed
  then have sizes: "\<forall>i<5. length (zip (chunk ?n i labels) (chunk ?n i vectors)) = ?n"
    by (simp only: chunk_zip) blast
  have rest: "length (drop (5 * ?n) (zip labels vectors)) = length labels mod 5"
    using assms by (simp add: minus_mult_div_eq_mod mult.commute)
  from uploads together sizes rest show ?thesis
    by (intro conjI)
qed

theorem upload_to_s3_five_chunks_witness:
  "length [[1], [2], [3], [4], [5], [6], [7], [8], [9], [10], [11 :: int]] =
     length [1, 2, 3, 4, 5, 6, 7, 8, 9, 10, 11 :: int]
   \<and> s3 (upload_to_s3 ascii str_int str_int ''b'' ''p'' ''train''
           ([[1], [2], [3], [4], [5], [6], [7], [8], [9], [10], [11]],
            [1, 2, 3, 4, 5, 6, 7, 8, 9, 10, 11]) \<lparr>s3 = [], stdout = []\<rparr>) =
       [(''b'', ''p/train/examples0'', ascii (''1 1:1'' @ [CHR 0x0A] @ ''2 1:2'')),
        (''b'', ''p/train/examples1'', ascii (''3 1:3'' @ [CHR 0x0A] @ ''4 1:4'')),
        (''b'', ''p/train/examples2'', ascii (''5 1:5'' @ [CHR 0x0A] @ ''6 1:6'')),
        (''b'', ''p/train/examples3'', ascii (''7 1:7'' @ [CHR 0x0A] @ ''8 1:8'')),
        (''b'', ''p/train/examples4'', ascii (''9 1:9'' @ [CHR 0x0A] @ ''10 1:10''))]"
  using upload_to_s3_five_chunks [of "[[1], [2], [3], [4], [5], [6], [7], [8], [9], [10], [11 :: int]]"
      "[1, 2, 3, 4, 5, 6, 7, 8, 9, 10, 11 :: int]" ascii str_int str_int "''b''" "''p''" "''train''"
      "\<lparr>s3 = [], stdout = []\<rparr>"]
  by (simp add: chunk_def libsvm_text_def libsvm_line_def libsvm_feature_def s3_key_def
      str_int_def str_nat.simps upt_rec)

section \<open>Theorems: error_rate\<close>

lemma np_zeros_mat10: "np_zeros 10 10 = mat10 (\<lambda>p a. 0)"
  by (simp add: np_zeros_def mat10_def map_replicate_const)

lemma np_index_digit:
  assumes "0 \<le> x" and "x \<le> 9"
  shows "np_index 10 x = Inr (nat x)"
  using assms by (simp add: np_index_def)

lemma length_mat10 [simp]: "length (mat10 f) = 10"
  by (simp add: mat10_def)

lemma nth_mat10:
  assumes "p < 10"
  shows "mat10 f ! p = map (\<lambda>a. f p a) [0..<10]"
  using assms by (simp add: mat10_def del: upt_Suc)

lemma mat10_update:
  assumes "r < 10" and "c < 10"
  shows "(mat10 f)[r := (mat10 f ! r)[c := v]] = mat10 (\<lambda>p a. if p = r \<and> a = c then v else f p a)"
proof (rule nth_equalityI)
  show "length ((mat10 f)[r := (mat10 f ! r)[c := v]]) =
        length (mat10 (\<lambda>p a. if p = r \<and> a = c then v else f p a))"
    by simp
next
  fix p
  assume "p < length ((mat10 f)[r := (mat10 f ! r)[c := v]])"
  then have p: "p < 10" by simp
  show "(mat10 f)[r := (mat10 f ! r)[c := v]] ! p =
        mat10 (\<lambda>p a. if p = r \<and> a = c then v else f p a) ! p"
  proof (cases "p = r")
    case True
    have "(map (\<lambda>a. f r a) [0..<10])[c := v] = map (\<lambda>a. if a = c then v else f r a) [0..<10]"
      using assms(2) by (intro nth_equalityI) (simp_all add: nth_list_update del: upt_Suc)
    with True p show ?thesis
      by (simp add: nth_mat10 del: upt_Suc)
  next
    case False
    with p show ?thesis
      by (simp add: nth_mat10 del: upt_Suc)
  qed
qed

lemma length_nth_mat10:
  assumes "p < 10"
  shows "length (mat10 f ! p) = 10"
  using assms by (simp add: nth_mat10)

lemma nth_nth_mat10:
  assumes "p < 10" and "a < 10"
  shows "mat10 f ! p ! a = f p a"
  using assms by (simp add: nth_mat10 del: upt_Suc)

lemma increment_mat10:
  assumes "0 \<le> x" and "x \<le> 9" and "0 \<le> y" and "y \<le> 9"
  shows "increment (mat10 f) x y =
           Inr (mat10 (\<lambda>p a. f p a + (if p = nat x \<and> a = nat y then 1 else 0)))"
proof -
  have r: "nat x < 10" and c: "nat y < 10"
    using assms by simp_all
  have "increment (mat10 f) x y =
          Inr ((mat10 f)[nat x := (mat10 f ! nat x)[nat y := mat10 f ! nat x ! nat y + 1]])"
    by (simp add: increment_def np_index_digit assms length_nth_mat10 [OF r])
  also have "\<dots> = Inr (mat10 (\<lambda>p a. if p = nat x \<and> a = nat y then f (nat x) (nat y) + 1 else f p a))"
    by (simp only: mat10_update [OF r c] nth_nth_mat10 [OF r c])
  also have "(\<lambda>p a. if p = nat x \<and> a = nat y then f (nat x) (nat y) + 1 else f p a) =
        (\<lambda>p a. f p a + (if p = nat x \<and> a = nat y then 1 else 0))"
    by (intro ext) simp
  finally show ?thesis .
qed

lemma pairs_equal_Cons:
  assumes "0 \<le> x" and "0 \<le> y"
  shows "pairs_equal p a ((x, y) # zs) = (if p = nat x \<and> a = nat y then 1 else 0) + pairs_equal p a zs"
  using assms by (auto simp: pairs_equal_def)

lemma tally_mat10:
  assumes "list_all (\<lambda>(x, y). 0 \<le> x \<and> x \<le> 9 \<and> 0 \<le> y \<and> y \<le> 9) zs"
  shows "tally zs (mat10 f) = Inr (mat10 (\<lambda>p a. f p a + of_nat (pairs_equal p a zs)))"
  using assms
proof (induction zs arbitrary: f)
  case Nil
  show ?case by (simp add: pairs_equal_def)
next
  case (Cons z zs)
  obtain x y where z: "z = (x, y)"
    by (cases z)
  with Cons.prems have range: "0 \<le> x" "x \<le> 9" "0 \<le> y" "y \<le> 9" and rest:
    "list_all (\<lambda>(x, y). 0 \<le> x \<and> x \<le> 9 \<and> 0 \<le> y \<and> y \<le> 9) zs"
    by simp_all
  have "(\<lambda>p a. f p a + (if p = nat x \<and> a = nat y then 1 else 0) + of_nat (pairs_equal p a zs)) =
        (\<lambda>p a. f p a + of_nat (pairs_equal p a ((x, y) # zs)))"
    by (intro ext) (simp add: pairs_equal_Cons range)
  then show ?case
    by (simp add: z increment_mat10 range Cons.IH [OF rest])
qed

lemma sint_of_nat_small:
  assumes "n < 2 ^ 31"
  shows "sint (of_nat n :: int32) = int n"
proof -
  have "sint (of_nat n :: int32) = (int n + 2 ^ 31) mod 2 ^ 32 - 2 ^ 31"
    using int_word_sint [where ?'a = 32 and x = "int n"] by simp
  also have "\<dots> = int n"
    using assms by simp
  finally show ?thesis .
qed

lemma filter_positions:
  "length (filter P zs) = length (filter (\<lambda>k. P (zs ! k)) [0..<length zs])"
proof -
  have "length (filter P zs) = length (filter P (map ((!) zs) [0..<length zs]))"
    by (simp only: map_nth)
  also have "\<dots> = length (filter (\<lambda>k. P (zs ! k)) [0..<length zs])"
    by (simp only: filter_map length_map comp_def)
  finally show ?thesis .
qed

lemma filter_zip_positions:
  assumes "length xs = length ys"
  shows "length (filter (\<lambda>(x, y). Q x y) (zip xs ys)) =
         length (filter (\<lambda>k. Q (xs ! k) (ys ! k)) [0..<length xs])"
proof -
  have "filter (\<lambda>k. (\<lambda>(x, y). Q x y) (zip xs ys ! k)) [0..<length (zip xs ys)] =
        filter (\<lambda>k. Q (xs ! k) (ys ! k)) [0..<length (zip xs ys)]"
    by (rule filter_cong) simp_all
  then show ?thesis
    using assms by (simp add: filter_positions [of _ "zip xs ys"])
qed

lemma pairs_equal_confused:
  assumes "length predictions = length labels"
  shows "pairs_equal p a (zip predictions labels) = confused predictions labels p a"
  unfolding pairs_equal_def confused_def
  by (rule filter_zip_positions [OF assms])

lemma np_sum_agreeing:
  assumes "length predictions = length labels"
  shows "np_equal predictions labels = Inr (map (\<lambda>(x, y). x = y) (zip predictions labels))"
    and "np_sum (map (\<lambda>(x, y). x = y) (zip predictions labels)) = agreeing predictions labels"
proof -
  show "np_equal predictions labels = Inr (map (\<lambda>(x, y). x = y) (zip predictions labels))"
    using assms by (simp add: np_equal_def)
  have "np_sum (map (\<lambda>(x, y). x = y) (zip predictions labels)) =
        length (filter (\<lambda>(x, y). x = y) (zip predictions labels))"
    by (simp add: np_sum_def filter_map comp_def)
  also have "\<dots> = agreeing predictions labels"
    unfolding agreeing_def by (rule filter_zip_positions [OF assms])
  finally show "np_sum (map (\<lambda>(x, y). x = y) (zip predictions labels)) = agreeing predictions labels" .
qed

lemma pairs_equal_total:
  assumes "list_all (\<lambda>(x, y). 0 \<le> x \<and> x \<le> 9 \<and> 0 \<le> y \<and> y \<le> 9) zs"
  shows "(\<Sum>p = 0..<10. \<Sum>a = 0..<10. pairs_equal p a zs) = length zs"
  using assms
proof (induction zs)
  case Nil
  show ?case by (simp add: pairs_equal_def)
next
  case (Cons z zs)
  obtain x y where z: "z = (x, y)"
    by (cases z)
  with Cons.prems have range: "0 \<le> x" "x \<le> 9" "0 \<le> y" "y \<le> 9" and rest:
    "list_all (\<lambda>(x, y). 0 \<le> x \<and> x \<le> 9 \<and> 0 \<le> y \<and> y \<le> 9) zs"
    by simp_all
  have r: "nat x \<in> {0..<10}" and c: "nat y \<in> {0..<10}"
    using range by simp_all
  have "(\<Sum>p = 0..<10. \<Sum>a = 0..<10. if p = nat x \<and> a = nat y then 1 else 0) =
        (\<Sum>p = 0..<10. if p = nat x then (\<Sum>a = 0..<10. if a = nat y then 1 else 0) else 0 :: nat)"
    by (intro sum.cong refl) simp
  also have "\<dots> = 1"
    using r c by (simp only: sum.delta finite_atLeastLessThan if_True)
  finally have one: "(\<Sum>p = 0..<10. \<Sum>a = 0..<10. if p = nat x \<and> a = nat y then 1 else 0) = (1 :: nat)" .
  have "(\<Sum>p = 0..<10. \<Sum>a = 0..<10. pairs_equal p a (z # zs)) =
        (\<Sum>p = 0..<10. \<Sum>a = 0..<10. if p = nat x \<and> a = nat y then 1 else 0) +
        (\<Sum>p = 0..<10. \<Sum>a = 0..<10. pairs_equal p a zs)"
    by (simp only: z pairs_equal_Cons [OF range(1) range(3)] sum.distrib)
  with one Cons.IH [OF rest] show ?case
    by simp
qed

lemma pairs_equal_le: "pairs_equal p a zs \<le> length zs"
  by (simp add: pairs_equal_def)

lemma matrix_total_mat10:
  assumes "\<And>p a. g p a < 2 ^ 31"
  shows "matrix_total (mat10 (\<lambda>p a. of_nat (g p a))) = int (\<Sum>p = 0..<10. \<Sum>a = 0..<10. g p a)"
  unfolding matrix_total_def mat10_def
  by (simp only: map_map comp_def sint_of_nat_small [OF assms]
      interv_sum_list_conv_sum_set_nat set_upt of_nat_sum)

lemma in_digits_zip:
  assumes "in_digits xs" and "in_digits ys"
  shows "list_all (\<lambda>(x, y). 0 \<le> x \<and> x \<le> 9 \<and> 0 \<le> y \<and> y \<le> 9) (zip xs ys)"
  using assms unfolding in_digits_def list_all_iff
  by (auto dest: set_zip_leftD set_zip_rightD)

lemma agreeing_le: "agreeing predictions labels \<le> length predictions"
  unfolding agreeing_def using length_filter_le [of _ "[0..<length predictions]"] by simp

lemma percent_rounds:
  assumes "0 \<le> q" and "q \<le> 100"
  shows "round64 q = Finite (double q)"
    and "round64 (100 - double q) = Finite (double (100 - double q))"
    and "\<bar>double (100 - double q) - (100 - q)\<bar> \<le> 1 / 2 ^ 46"
proof -
  have p7: "pow2 (- 46 + 53) = 128"
    by (simp add: pow2_def)
  have p46: "pow2 (- 46) = 1 / 2 ^ 46"
    by (simp add: pow2_def)
  have "\<bar>q\<bar> < 128"
    using assms by simp
  then have q: "\<bar>q\<bar> < pow2 (- 46 + 53)"
    by (simp only: p7)
  then show "round64 q = Finite (double q)"
    by (rule round64_small) simp_all
  have near: "\<bar>double q - q\<bar> \<le> pow2 (- 46) / 2"
    using q by (rule double_near) simp
  then have "\<bar>double q - q\<bar> \<le> 1"
    unfolding p46 by simp
  with assms have d: "\<bar>100 - double q\<bar> < pow2 (- 46 + 53)"
    unfolding p7 by linarith
  then show "round64 (100 - double q) = Finite (double (100 - double q))"
    by (rule round64_small) simp_all
  have "\<bar>double (100 - double q) - (100 - double q)\<bar> \<le> pow2 (- 46) / 2"
    using d by (rule double_near) simp
  with near have "\<bar>double (100 - double q) - (100 - q)\<bar> \<le> pow2 (- 46) / 2 + pow2 (- 46) / 2"
    by linarith
  then show "\<bar>double (100 - double q) - (100 - q)\<bar> \<le> 1 / 2 ^ 46"
    unfolding p46 by simp
qed

text \<open>
  The result of \<open>error_rate\<close> on non-empty arrays of one length with entries from 0 to 9,
  as long as \<open>100 * correct\<close> is below \<open>2^53\<close>: the counters are those of \<open>confused\<close>
  modulo \<open>2^32\<close>.
\<close>

lemma error_rate_result:
  assumes "length predictions = length labels"
    and "in_digits predictions" and "in_digits labels"
    and "predictions \<noteq> []" and "length predictions < 2 ^ 44"
  shows "error_rate predictions labels =
           Inr (Finite (double (100 - double (100 * real (agreeing predictions labels)
                                               / real (length predictions)))),
                mat10 (\<lambda>p a. of_nat (confused predictions labels p a)))"
proof -
  let ?zs = "zip predictions labels"
  let ?c = "agreeing predictions labels"
  let ?n = "length predictions"
  have digits: "list_all (\<lambda>(x, y). 0 \<le> x \<and> x \<le> 9 \<and> 0 \<le> y \<and> y \<le> 9) ?zs"
    using assms(2,3) by (rule in_digits_zip)
  have "tally ?zs (np_zeros 10 10) = Inr (mat10 (\<lambda>p a. 0 + of_nat (pairs_equal p a ?zs)))"
    unfolding np_zeros_mat10 using digits by (rule tally_mat10)
  then have loop: "tally ?zs (np_zeros 10 10) = Inr (mat10 (\<lambda>p a. of_nat (confused predictions labels p a)))"
    by (simp only: pairs_equal_confused [OF assms(1)] add_0_left)
  have c: "?c \<le> ?n"
    by (rule agreeing_le)
  have n: "int ?n < 2 ^ 44"
    using assms(5) by (metis of_nat_less_numeral_power_cancel_iff)
  have "(2 :: int) ^ 44 \<le> 2 ^ 53"
    by simp
  with n c have fc: "float_of_int (int ?c) = Inr (Finite (real ?c))"
    and fn: "float_of_int (int ?n) = Inr (Finite (real ?n))"
    by (simp_all add: float_of_int_small)
  have "100 * int ?c < 100 * 2 ^ 44"
    using n c by simp
  also have "\<dots> < (2 :: int) ^ 53"
    by simp
  finally have "\<bar>100 * int ?c\<bar> < 2 ^ 53"
    by simp
  then have "round64 (of_int (100 * int ?c)) = Finite (of_int (100 * int ?c))"
    by (rule round64_int)
  then have mul: "float_mul (Finite 100) (Finite (real ?c)) = Finite (100 * real ?c)"
    by (simp add: float_mul_def)
  have pos: "0 < real ?n"
    using assms(4) by simp
  then have nz: "Finite (real ?n) \<noteq> Finite 0"
    by simp
  have q0: "0 \<le> 100 * real ?c / real ?n"
    by simp
  have "100 * real ?c \<le> 100 * real ?n"
    using c by simp
  then have q100: "100 * real ?c / real ?n \<le> 100"
    using pos by (simp add: field_simps)
  have div: "float_truediv (Finite (100 * real ?c)) (Finite (real ?n)) =
             Inr (Finite (double (100 * real ?c / real ?n)))"
    using nz by (simp add: float_truediv_def percent_rounds(1) [OF q0 q100])
  have sub: "float_sub (Finite 100) (Finite (double (100 * real ?c / real ?n))) =
             Finite (double (100 - double (100 * real ?c / real ?n)))"
    by (simp add: float_sub_def percent_rounds(2) [OF q0 q100])
  show ?thesis
    by (simp add: error_rate_def np_sum_agreeing [OF assms(1)] fc fn mul div sub loop)
qed

lemma quantum_exp_third: "quantum_exp (100 / 3) = - 47"
  by (rule quantum_exp_eq) (simp_all add: pow2_def)

lemma double_third: "double (100 / 3) = 4691249611844267 / 140737488355328"
  by (simp add: double_at [OF quantum_exp_third] pow2_def round_half_even_def)

lemma quantum_exp_two_thirds:
  "quantum_exp (9382499223688533 / 140737488355328) = - 46"
  by (rule quantum_exp_eq) (simp_all add: pow2_def)

lemma double_two_thirds:
  "double (9382499223688533 / 140737488355328) = 2345624805922133 / 35184372088832"
  by (simp add: double_at [OF quantum_exp_two_thirds] pow2_def round_half_even_def)

lemma agreeing_example: "agreeing [1, 2, 3] [1, 0, 0] = 1"
  by (simp add: agreeing_def upt_rec)

lemma agreeing_replicate: "agreeing (replicate n x) (replicate n x) = n"
  by (simp add: agreeing_def)

lemma confused_replicate:
  "confused (replicate n 0) (replicate n 0) p a = (if p = 0 \<and> a = 0 then n else 0)"
proof -
  have "filter (\<lambda>k. replicate n (0 :: int) ! k = int p \<and> replicate n (0 :: int) ! k = int a) [0..<n] =
        filter (\<lambda>k. p = 0 \<and> a = 0) [0..<n]"
    by (rule filter_cong) auto
  then show ?thesis
    by (simp add: confused_def)
qed

lemma double_zero [simp]: "double 0 = 0"
  by (simp add: double_def round_half_even_def)

lemma double_hundred: "double 100 = 100"
  using double_int [of 100] by simp

text \<open>
  Claim C5, amended. For non-empty arrays \<open>predictions\<close> and \<open>labels\<close> of one length
  below \<open>2^31\<close> whose entries are integers from 0 to 9, \<open>error_rate\<close> returns
  \<open>(error, confusions)\<close>. \<open>error\<close> is \<open>100.0 - (100 * correct / total)\<close> evaluated in
  double precision, the quotient and the difference each rounded to the nearest double,
  where \<open>correct\<close> is the number of positions at which prediction equals label; it is
  within \<open>2^-46\<close> of 100 minus 100 times the fraction of such positions. \<open>confusions\<close> is
  the 10-by-10 matrix whose entry \<open>(p, a)\<close> counts the positions with predicted value
  \<open>p\<close> and actual value \<open>a\<close>; its entries sum to the length of \<open>predictions\<close>.
\<close>

theorem error_rate_nonempty:
  assumes "length predictions = length labels"
    and "in_digits predictions" and "in_digits labels"
    and "predictions \<noteq> []" and "length predictions < 2 ^ 31"
  shows "error_rate predictions labels =
           Inr (Finite (double (100 - double (100 * real (agreeing predictions labels)
                                               / real (length predictions)))),
                mat10 (\<lambda>p a. of_nat (confused predictions labels p a)))
       \<and> \<bar>double (100 - double (100 * real (agreeing predictions labels) / real (length predictions)))
          - error_percent predictions labels\<bar> \<le> 1 / 2 ^ 46
       \<and> (\<forall>p<10. \<forall>a<10. sint (mat10 (\<lambda>p a. of_nat (confused predictions labels p a)) ! p ! a) =
                            int (confused predictions labels p a))
       \<and> matrix_total (mat10 (\<lambda>p a. of_nat (confused predictions labels p a))) =
           int (length predictions)"
proof -
  let ?zs = "zip predictions labels"
  let ?c = "agreeing predictions labels"
  let ?n = "length predictions"
  have digits: "list_all (\<lambda>(x, y). 0 \<le> x \<and> x \<le> 9 \<and> 0 \<le> y \<and> y \<le> 9) ?zs"
    using assms(2,3) by (rule in_digits_zip)
  have len: "length ?zs = length predictions"
    using assms(1) by simp
  have small: "confused predictions labels p a < 2 ^ 31" for p a
    using pairs_equal_le [of p a ?zs] assms(5) len
    by (simp only: pairs_equal_confused [OF assms(1)])
  have "(2 :: nat) ^ 31 \<le> 2 ^ 44"
    by simp
  with assms(5) have "length predictions < 2 ^ 44"
    by simp
  with assms(1-4) have result: "error_rate predictions labels =
           Inr (Finite (double (100 - double (100 * real ?c / real ?n))),
                mat10 (\<lambda>p a. of_nat (confused predictions labels p a)))"
    by (rule error_rate_result)
  have pos: "0 < real ?n"
    using assms(4) by simp
  have q0: "0 \<le> 100 * real ?c / real ?n"
    by simp
  have "100 * real ?c \<le> 100 * real ?n"
    using agreeing_le [of predictions labels] by simp
  then have q100: "100 * real ?c / real ?n \<le> 100"
    using pos by (simp add: field_simps)
  have near: "\<bar>double (100 - double (100 * real ?c / real ?n)) - error_percent predictions labels\<bar>
              \<le> 1 / 2 ^ 46"
    using percent_rounds(3) [OF q0 q100] by (simp add: error_percent_def)
  have entries: "\<forall>p<10. \<forall>a<10. sint (mat10 (\<lambda>p a. of_nat (confused predictions labels p a)) ! p ! a) =
                            int (confused predictions labels p a)"
    by (simp add: nth_nth_mat10 sint_of_nat_small [OF small])
  have "matrix_total (mat10 (\<lambda>p a. of_nat (confused predictions labels p a))) =
          int (\<Sum>p = 0..<10. \<Sum>a = 0..<10. confused predictions labels p a)"
    using small by (rule matrix_total_mat10)
  also have "\<dots> = int (length predictions)"
    using pairs_equal_total [OF digits]
    by (simp only: pairs_equal_confused [OF assms(1)] len)
  finally have total: "matrix_total (mat10 (\<lambda>p a. of_nat (confused predictions labels p a))) =
          int (length predictions)" .
  from result near entries total show ?thesis
    by (intro conjI)
qed

theorem error_rate_nonempty_witness:
  "length [1, 2, 3 :: int] = length [1, 0, 0 :: int]
   \<and> in_digits [1, 2, 3] \<and> in_digits [1, 0, 0]
   \<and> [1, 2, 3 :: int] \<noteq> [] \<and> length [1, 2, 3 :: int] < 2 ^ 31
   \<and> error_rate [1, 2, 3] [1, 0, 0] =
         Inr (Finite (2345624805922133 / 35184372088832),
              mat10 (\<lambda>p a. of_nat (confused [1, 2, 3] [1, 0, 0] p a)))
   \<and> \<bar>2345624805922133 / 35184372088832 - error_percent [1, 2, 3] [1, 0, 0]\<bar> \<le> 1 / 2 ^ 46
   \<and> matrix_total (mat10 (\<lambda>p a. of_nat (confused [1, 2, 3] [1, 0, 0] p a))) = 3"
  using error_rate_nonempty [of "[1, 2, 3]" "[1, 0, 0]"]
  by (simp add: in_digits_def agreeing_example double_third double_two_thirds)

text \<open>
  Where the sentence of the claim fails. On empty arrays the division
  \<^verbatim>\<open>100 * float(correct) / float(total)\<close> is \<open>0.0 / 0.0\<close> and the call raises instead of
  returning a pair. On \<open>[1, 2, 3]\<close> and \<open>[1, 0, 0]\<close> the error returned is the double
  \<open>66.66666666666666\<close>, which is not \<open>100 - 100 * (1 / 3)\<close>. On two arrays of \<open>2^31\<close>
  zeros the counter at \<open>(0, 0)\<close> has wrapped to \<open>- 2^31\<close>.
\<close>

theorem error_rate_empty_rounded_wrapped:
  "error_rate [] [] = Inl ZeroDivisionError
   \<and> error_rate [1, 2, 3] [1, 0, 0] =
       Inr (Finite (2345624805922133 / 35184372088832),
            mat10 (\<lambda>p a. of_nat (confused [1, 2, 3] [1, 0, 0] p a)))
   \<and> 2345624805922133 / 35184372088832 \<noteq> error_percent [1, 2, 3] [1, 0, 0]
   \<and> error_percent [1, 2, 3] [1, 0, 0] = 200 / 3
   \<and> error_rate (replicate (2 ^ 31) 0) (replicate (2 ^ 31) 0) =
       Inr (Finite 0, mat10 (\<lambda>p a. if p = 0 \<and> a = 0 then 2 ^ 31 else 0))
   \<and> sint (mat10 (\<lambda>p a. if p = 0 \<and> a = 0 then 2 ^ 31 else 0 :: int32) ! 0 ! 0) = - (2 ^ 31)
   \<and> confused (replicate (2 ^ 31) 0) (replicate (2 ^ 31) 0) 0 0 = 2 ^ 31"
proof -
  have empty: "error_rate [] [] = Inl ZeroDivisionError"
    by (simp add: error_rate_def np_equal_def np_sum_def float_of_int_small float_mul_def
        round64_Ints float_truediv_def)
  have "error_rate [1, 2, 3] [1, 0, 0] =
          Inr (Finite (double (100 - double (100 * real (agreeing [1, 2, 3] [1, 0, 0])
                                              / real (length [1, 2, 3 :: int])))),
               mat10 (\<lambda>p a. of_nat (confused [1, 2, 3] [1, 0, 0] p a)))"
    by (rule error_rate_result) (simp_all add: in_digits_def)
  then have rounded: "error_rate [1, 2, 3] [1, 0, 0] =
       Inr (Finite (2345624805922133 / 35184372088832),
            mat10 (\<lambda>p a. of_nat (confused [1, 2, 3] [1, 0, 0] p a)))"
    by (simp add: agreeing_example double_third double_two_thirds)
  have percent: "error_percent [1, 2, 3] [1, 0, 0] = 200 / 3"
    by (simp add: error_percent_def agreeing_example)
  have "error_rate (replicate (2 ^ 31) 0) (replicate (2 ^ 31) 0) =
          Inr (Finite (double (100 - double (100 * real (agreeing (replicate (2 ^ 31) 0) (replicate (2 ^ 31) 0))
                                              / real (length (replicate (2 ^ 31) (0 :: int)))))),
               mat10 (\<lambda>p a. of_nat (confused (replicate (2 ^ 31) 0) (replicate (2 ^ 31) 0) p a)))"
    by (rule error_rate_result) (simp_all add: in_digits_def list_all_iff)
  moreover have "(\<lambda>p a. of_nat (confused (replicate (2 ^ 31) 0) (replicate (2 ^ 31) 0) p a) :: int32) =
        (\<lambda>p a. if p = 0 \<and> a = 0 then 2 ^ 31 else 0)"
    by (intro ext) (simp add: confused_replicate)
  ultimately have wrapped: "error_rate (replicate (2 ^ 31) 0) (replicate (2 ^ 31) 0) =
       Inr (Finite 0, mat10 (\<lambda>p a. if p = 0 \<and> a = 0 then 2 ^ 31 else 0))"
    by (simp add: agreeing_replicate double_hundred)
  have entry: "sint (mat10 (\<lambda>p a. if p = 0 \<and> a = 0 then 2 ^ 31 else 0 :: int32) ! 0 ! 0) = - (2 ^ 31)"
    by (simp add: nth_nth_mat10)
  have count: "confused (replicate (2 ^ 31) 0) (replicate (2 ^ 31) 0) 0 0 = 2 ^ 31"
    by (simp add: confused_replicate)
  from empty rounded percent wrapped entry count show ?thesis
    by simp
qed

section \<open>Theorems: series_to_obj and the JSON-lines files\<close>

lemma str_join_avoids:
  assumes "c \<notin> set sep" and "\<And>x. x \<in> set xs \<Longrightarrow> c \<notin> set x"
  shows "c \<notin> set (str_join sep xs)"
  using assms by (induction sep xs rule: str_join.induct) auto

lemma json_dumps_no_newline:
  assumes "\<And>s. CHR 0x0A \<notin> set (quote s)" and "\<And>x. CHR 0x0A \<notin> set (num x)"
  shows "CHR 0x0A \<notin> set (json_dumps quote num v)"
proof (induction v)
  case (PyStr s)
  show ?case using assms(1) by simp
next
  case (PyNum x)
  show ?case using assms(2) by simp
next
  case (PyList xs)
  have "CHR 0x0A \<notin> set (str_join '', '' (map (json_dumps quote num) xs))"
    using PyList by (intro str_join_avoids) auto
  then show ?case by simp
next
  case (PyDict kvs)
  have "CHR 0x0A \<notin> set (str_join '', '' (map (\<lambda>(k, v). quote k @ '': '' @ json_dumps quote num v) kvs))"
  proof (rule str_join_avoids)
    show "CHR 0x0A \<notin> set '', ''" by simp
  next
    fix x
    assume "x \<in> set (map (\<lambda>(k, v). quote k @ '': '' @ json_dumps quote num v) kvs)"
    then obtain k v where kv: "(k, v) \<in> set kvs" and x: "x = quote k @ '': '' @ json_dumps quote num v"
      by auto
    from kv have "CHR 0x0A \<notin> set (json_dumps quote num v)"
      by (rule PyDict) simp
    with x assms(1) show "CHR 0x0A \<notin> set x"
      by simp
  qed
  then show ?case by simp
qed

lemma quote_ascii_no_newline: "CHR 0x0A \<notin> set (quote_ascii s)"
  by (induction s) (simp_all add: quote_ascii_def)

lemma digit_not_newline:
  assumes "k < 10"
  shows "''0123456789'' ! k \<noteq> CHR 0x0A"
proof -
  have "''0123456789'' ! k \<in> set ''0123456789''"
    using assms by (intro nth_mem) simp
  then show ?thesis
    by auto
qed

lemma str_nat_no_newline: "CHR 0x0A \<notin> set (str_nat n)"
proof (induction n rule: str_nat.induct)
  case (1 n)
  show ?case
  proof (cases "n < 10")
    case True
    then show ?thesis
      using digit_not_newline [of n] by (subst str_nat.simps) auto
  next
    case False
    then show ?thesis
      using 1 digit_not_newline [of "n mod 10"] by (subst str_nat.simps) auto
  qed
qed

lemma series_to_obj_empty:
  assumes "index ts = []"
  shows "series_to_obj str_index ts cat = Inl IndexError"
  using assms by (simp add: series_to_obj_def)

lemma series_to_obj_nonempty:
  assumes "index ts \<noteq> []"
  shows "series_to_obj str_index ts cat = Inr (series_obj str_index ts cat)"
  using assms
  by (cases "index ts"; cases cat) (simp_all add: series_to_obj_def series_obj_def)

lemma series_to_jsonline_nonempty:
  assumes "index ts \<noteq> []"
  shows "series_to_jsonline quote num str_index ts cat =
           Inr (json_dumps quote num (PyDict (series_obj str_index ts cat)))"
  by (simp add: series_to_jsonline_def series_to_obj_nonempty [OF assms])

lemma write_jsonlines_nonempty:
  assumes "\<And>ts. ts \<in> set tss \<Longrightarrow> index ts \<noteq> []"
  shows "write_jsonlines utf8 quote num str_index tss f =
           Inr (f @ concat (map (\<lambda>ts. utf8 (json_dumps quote num (PyDict (series_obj str_index ts None)))
                                     @ utf8 [CHR 0x0A]) tss))"
  using assms
proof (induction tss arbitrary: f)
  case Nil
  show ?case by simp
next
  case (Cons ts tss)
  then show ?case
    by (simp add: series_to_jsonline_nonempty)
qed

text \<open>
  Claim C4, amended. For every non-empty time series \<open>ts\<close>, \<open>series_to_obj(ts, cat)\<close>
  returns an object whose \<open>start\<close> field is the string form of the first index of \<open>ts\<close>
  and whose \<open>target\<close> field is the list of the values of \<open>ts\<close>, and which has a \<open>cat\<close>
  field, holding \<open>cat\<close>, if and only if \<open>cat\<close> is not \<open>None\<close>;
  \<open>series_to_jsonline(ts, cat)\<close> is the JSON serialization of that object. The files
  written from non-empty series hold, for each series in order, the encoded JSON text of
  its object followed by an encoded newline; the JSON text itself has no newline when
  neither quoted strings nor printed numbers have one.
\<close>

theorem series_to_obj_nonempty_series:
  assumes "index ts \<noteq> []"
    and "\<forall>t \<in> set tss. index t \<noteq> []"
    and "\<And>s. CHR 0x0A \<notin> set (quote s)"
    and "\<And>x. CHR 0x0A \<notin> set (num x)"
  shows "series_to_obj str_index ts cat = Inr (series_obj str_index ts cat)
       \<and> map_of (series_obj str_index ts cat) ''start'' = Some (PyStr (str_index (hd (index ts))))
       \<and> map_of (series_obj str_index ts cat) ''target'' = Some (PyList (map PyNum (vals ts)))
       \<and> map_of (series_obj str_index ts cat) ''cat'' = cat
       \<and> (''cat'' \<in> fst ` set (series_obj str_index ts cat)) = (cat \<noteq> None)
       \<and> series_to_jsonline quote num str_index ts cat =
           Inr (json_dumps quote num (PyDict (series_obj str_index ts cat)))
       \<and> write_jsonlines utf8 quote num str_index tss [] =
           Inr (concat (map (\<lambda>t. utf8 (json_dumps quote num (PyDict (series_obj str_index t None)))
                                  @ utf8 [CHR 0x0A]) tss))
       \<and> (\<forall>t \<in> set tss.
             CHR 0x0A \<notin> set (json_dumps quote num (PyDict (series_obj str_index t None))))"
proof -
  have fields: "map_of (series_obj str_index ts cat) ''start'' = Some (PyStr (str_index (hd (index ts))))"
    "map_of (series_obj str_index ts cat) ''target'' = Some (PyList (map PyNum (vals ts)))"
    "map_of (series_obj str_index ts cat) ''cat'' = cat"
    "(''cat'' \<in> fst ` set (series_obj str_index ts cat)) = (cat \<noteq> None)"
    by (cases cat; simp add: series_obj_def)+
  have written: "write_jsonlines utf8 quote num str_index tss [] =
           Inr ([] @ concat (map (\<lambda>t. utf8 (json_dumps quote num (PyDict (series_obj str_index t None)))
                                  @ utf8 [CHR 0x0A]) tss))"
    using assms(2) by (intro write_jsonlines_nonempty) blast
  have lines: "\<forall>t \<in> set tss.
             CHR 0x0A \<notin> set (json_dumps quote num (PyDict (series_obj str_index t None)))"
    using json_dumps_no_newline [of quote num, OF assms(3) assms(4)] by blast
  from fields written lines show ?thesis
    by (simp only: series_to_obj_nonempty [OF assms(1)] series_to_jsonline_nonempty [OF assms(1)]
        append_Nil simp_thms)
qed

theorem series_to_obj_nonempty_series_witness:
  "index \<lparr>index = [''2016-01-01 00:00:00'', ''2016-01-01 02:00:00''], vals = [3, 14 :: nat]\<rparr> \<noteq> []
   \<and> series_to_obj id \<lparr>index = [''2016-01-01 00:00:00'', ''2016-01-01 02:00:00''], vals = [3, 14 :: nat]\<rparr>
         (Some (PyNum 7)) =
       Inr [(''start'', PyStr ''2016-01-01 00:00:00''), (''target'', PyList [PyNum 3, PyNum 14]),
            (''cat'', PyNum 7)]
   \<and> series_to_jsonline quote_ascii str_nat id
         \<lparr>index = [''2016-01-01 00:00:00'', ''2016-01-01 02:00:00''], vals = [3, 14 :: nat]\<rparr>
         (Some (PyNum 7)) =
       Inr (''{'' @ quote_ascii ''start'' @ '': '' @ quote_ascii ''2016-01-01 00:00:00'' @ '', ''
            @ quote_ascii ''target'' @ '': [3, 14], '' @ quote_ascii ''cat'' @ '': 7}'')
   \<and> write_jsonlines ascii quote_ascii str_nat id
         [\<lparr>index = [''a''], vals = [1]\<rparr>, \<lparr>index = [''b''], vals = []\<rparr>] [] =
       Inr (ascii (''{'' @ quote_ascii ''start'' @ '': '' @ quote_ascii ''a'' @ '', ''
                   @ quote_ascii ''target'' @ '': [1]}'') @ ascii [CHR 0x0A]
            @ ascii (''{'' @ quote_ascii ''start'' @ '': '' @ quote_ascii ''b'' @ '', ''
                   @ quote_ascii ''target'' @ '': []}'') @ ascii [CHR 0x0A])"
  using series_to_obj_nonempty_series
    [of "\<lparr>index = [''2016-01-01 00:00:00'', ''2016-01-01 02:00:00''], vals = [3, 14 :: nat]\<rparr>"
        "[\<lparr>index = [''a''], vals = [1]\<rparr>, \<lparr>index = [''b''], vals = []\<rparr>]"
        quote_ascii str_nat id "Some (PyNum 7)" ascii,
     OF _ _ quote_ascii_no_newline str_nat_no_newline]
  by (simp add: series_obj_def str_nat.simps)

text \<open>
  On an empty series \<^verbatim>\<open>ts.index[0]\<close> raises, so no object is returned.
\<close>

theorem series_to_obj_empty_raises:
  "series_to_obj id \<lparr>index = [] :: string list, vals = [] :: nat list\<rparr> None = Inl IndexError"
  by (simp add: series_to_obj_def)

section \<open>Theorems: the polling loops\<close>

lemma while_loop_iterate:
  assumes "\<not> cond ((body ^^ k) s)" and "\<And>j. j < k \<Longrightarrow> cond ((body ^^ j) s)"
  shows "while_loop cond body s = Some ((body ^^ k) s)"
  using assms
proof (induction k arbitrary: s)
  case 0
  then show ?case by (subst while_loop.simps) simp
next
  case (Suc k)
  have "cond s"
    using Suc.prems(2) [of 0] by simp
  moreover have "while_loop cond body (body s) = Some ((body ^^ k) (body s))"
  proof (rule Suc.IH)
    show "\<not> cond ((body ^^ k) (body s))"
      using Suc.prems(1) by (simp add: funpow_swap1)
    show "cond ((body ^^ j) (body s))" if "j < k" for j
      using Suc.prems(2) [of "Suc j"] that by (simp add: funpow_swap1)
  qed
  ultimately show ?case
    by (subst while_loop.simps) (simp add: funpow_swap1)
qed

lemma while_loop_result:
  assumes "while_loop cond body s = Some r"
  shows "\<exists>k. r = (body ^^ k) s \<and> \<not> cond r"
proof (induction cond body s r rule: while_loop.raw_induct)
  case (1 f cond body s r)
  show ?case
  proof (cases "cond s")
    case True
    with "1"(2) have "f cond body (body s) = Some r"
      by simp
    then obtain k where "r = (body ^^ k) (body s)" and "\<not> cond r"
      using "1"(1) by blast
    then have "r = (body ^^ Suc k) s \<and> \<not> cond r"
      by (simp add: funpow_swap1)
    then show ?thesis ..
  next
    case False
    with "1"(2) have "r = (body ^^ 0) s \<and> \<not> cond r"
      by auto
    then show ?thesis ..
  qed
qed (rule assms)

lemma while_loop_diverges:
  assumes "\<And>k. cond ((body ^^ k) s)"
  shows "while_loop cond body s = None"
proof (cases "while_loop cond body s")
  case None
  then show ?thesis .
next
  case (Some r)
  then have "\<exists>k. r = (body ^^ k) s \<and> \<not> cond r"
    by (rule while_loop_result)
  then obtain k where "\<not> cond ((body ^^ k) s)"
    by blast
  with assms [of k] show ?thesis
    by contradiction
qed

lemma while_loop_first_at:
  assumes "\<And>j. cond ((body ^^ j) s) = (\<not> P (f j))" and "first_at P f k"
  shows "while_loop cond body s = Some ((body ^^ k) s)"
  using assms by (intro while_loop_iterate) (simp_all add: first_at_def)

lemma while_loop_never:
  assumes "\<And>j. cond ((body ^^ j) s) = (\<not> P (f j))" and "\<forall>j. \<not> P (f j)"
  shows "while_loop cond body s = None"
  using assms by (intro while_loop_diverges) simp

lemma training_poll_iterations:
  "(training_poll_body describe ^^ j)
     (emit (Printed (status (query_training_status describe s))) (query_training_status describe s)) =
   s\<lparr>status := training_statuses describe s j, calls := calls s + j + 1,
      events := events s @ training_poll_events (training_statuses describe s) j\<rparr>"
proof (induction j)
  case 0
  show ?case
    by (simp add: query_training_status_def emit_def training_statuses_def training_poll_events_def)
next
  case (Suc j)
  show ?case
    unfolding funpow.simps o_apply Suc
    by (simp add: training_poll_body_def query_training_status_def emit_def Let_def
        training_statuses_def training_poll_events_def)
qed

lemma endpoint_poll_iterations_mnist:
  "(endpoint_poll_body_mnist describe ^^ j)
     (emit (Printed (''Status: '' @ status (query_endpoint describe s))) (query_endpoint describe s)) =
   s\<lparr>status := endpoint_statuses describe s j, calls := calls s + j + 1,
      events := events s @ endpoint_poll_events_mnist (endpoint_statuses describe s) j,
      resp := describe (calls s + j)\<rparr>"
proof (induction j)
  case 0
  show ?case
    by (simp add: query_endpoint_def emit_def endpoint_statuses_def endpoint_poll_events_mnist_def Let_def)
next
  case (Suc j)
  show ?case
    unfolding funpow.simps o_apply Suc
    by (simp add: endpoint_poll_body_mnist_def query_endpoint_def emit_def Let_def
        endpoint_statuses_def endpoint_poll_events_mnist_def)
qed

lemma endpoint_poll_iterations_multilabel:
  "(endpoint_poll_body_multilabel describe ^^ j) (query_endpoint describe s) =
   s\<lparr>status := endpoint_statuses describe s j, calls := calls s + j + 1,
      events := events s @ endpoint_poll_events_multilabel (endpoint_statuses describe s) j,
      resp := describe (calls s + j)\<rparr>"
proof (induction j)
  case 0
  show ?case
    by (simp add: query_endpoint_def emit_def endpoint_statuses_def endpoint_poll_events_multilabel_def Let_def)
next
  case (Suc j)
  show ?case
    unfolding funpow.simps o_apply Suc
    by (simp add: endpoint_poll_body_multilabel_def query_endpoint_def emit_def Let_def
        endpoint_statuses_def endpoint_poll_events_multilabel_def)
qed

lemma training_poll_exits:
  assumes "first_at training_terminal (training_statuses describe s) k"
  shows "training_poll describe s =
           Some (s\<lparr>status := training_statuses describe s k, calls := calls s + k + 1,
                   events := events s @ training_poll_events (training_statuses describe s) k\<rparr>)"
proof -
  let ?s1 = "emit (Printed (status (query_training_status describe s))) (query_training_status describe s)"
  have "training_poll_loop describe ?s1 = Some ((training_poll_body describe ^^ k) ?s1)"
    unfolding training_poll_loop_def
  proof (rule while_loop_first_at)
    show "first_at training_terminal (training_statuses describe s) k"
      by (rule assms)
  qed (unfold training_poll_iterations, simp add: training_terminal_def)
  then show ?thesis
    by (simp only: training_poll_def Let_def training_poll_iterations)
qed

lemma training_poll_never:
  assumes "\<forall>j. \<not> training_terminal (training_statuses describe s j)"
  shows "training_poll describe s = None"
proof -
  let ?s1 = "emit (Printed (status (query_training_status describe s))) (query_training_status describe s)"
  have "training_poll_loop describe ?s1 = None"
    unfolding training_poll_loop_def
  proof (rule while_loop_never)
    show "\<forall>j. \<not> training_terminal (training_statuses describe s j)"
      by (rule assms)
  qed (unfold training_poll_iterations, simp add: training_terminal_def)
  then show ?thesis
    by (simp only: training_poll_def Let_def)
qed

lemma endpoint_poll_mnist_exits:
  assumes "first_at endpoint_terminal (endpoint_statuses describe s) k"
  shows "endpoint_poll_mnist describe s =
           Some (s\<lparr>status := endpoint_statuses describe s k, calls := calls s + k + 1,
                   events := events s @ endpoint_poll_events_mnist (endpoint_statuses describe s) k
                     @ [Printed (''Arn: '' @ EndpointArn (describe (calls s + k))),
                        Printed (''Status: '' @ endpoint_statuses describe s k)],
                   resp := describe (calls s + k)\<rparr>)"
proof -
  let ?s1 = "emit (Printed (''Status: '' @ status (query_endpoint describe s))) (query_endpoint describe s)"
  have "endpoint_poll_loop_mnist describe ?s1 = Some ((endpoint_poll_body_mnist describe ^^ k) ?s1)"
    unfolding endpoint_poll_loop_mnist_def
  proof (rule while_loop_first_at)
    show "first_at endpoint_terminal (endpoint_statuses describe s) k"
      by (rule assms)
  qed (unfold endpoint_poll_iterations_mnist, simp add: endpoint_terminal_def)
  then have "endpoint_poll_mnist describe s =
      Some (emit (Printed (''Status: '' @ status ((endpoint_poll_body_mnist describe ^^ k) ?s1)))
             (emit (Printed (''Arn: '' @ EndpointArn (resp ((endpoint_poll_body_mnist describe ^^ k) ?s1))))
                ((endpoint_poll_body_mnist describe ^^ k) ?s1)))"
    by (simp only: endpoint_poll_mnist_def Let_def option.case)
  then show ?thesis
    unfolding endpoint_poll_iterations_mnist by (simp add: emit_def)
qed

lemma endpoint_poll_mnist_never:
  assumes "\<forall>j. \<not> endpoint_terminal (endpoint_statuses describe s j)"
  shows "endpoint_poll_mnist describe s = None"
proof -
  let ?s1 = "emit (Printed (''Status: '' @ status (query_endpoint describe s))) (query_endpoint describe s)"
  have "endpoint_poll_loop_mnist describe ?s1 = None"
    unfolding endpoint_poll_loop_mnist_def
  proof (rule while_loop_never)
    show "\<forall>j. \<not> endpoint_terminal (endpoint_statuses describe s j)"
      by (rule assms)
  qed (unfold endpoint_poll_iterations_mnist, simp add: endpoint_terminal_def)
  then show ?thesis
    by (simp only: endpoint_poll_mnist_def Let_def option.case)
qed

lemma endpoint_poll_multilabel_exits:
  assumes "first_at endpoint_terminal (endpoint_statuses describe s) k"
  shows "endpoint_poll_multilabel describe s =
           Some (s\<lparr>status := endpoint_statuses describe s k, calls := calls s + k + 1,
                   events := events s @ endpoint_poll_events_multilabel (endpoint_statuses describe s) k
                     @ [Printed (''Arn: '' @ EndpointArn (describe (calls s + k))),
                        Printed (''Status: '' @ endpoint_statuses describe s k)],
                   resp := describe (calls s + k)\<rparr>)"
proof -
  let ?s1 = "query_endpoint describe s"
  have "endpoint_poll_loop_multilabel describe ?s1 = Some ((endpoint_poll_body_multilabel describe ^^ k) ?s1)"
    unfolding endpoint_poll_loop_multilabel_def
  proof (rule while_loop_first_at)
    show "first_at endpoint_terminal (endpoint_statuses describe s) k"
      by (rule assms)
  qed (unfold endpoint_poll_iterations_multilabel, simp add: endpoint_terminal_def)
  then have "endpoint_poll_multilabel describe s =
      Some (emit (Printed (''Status: '' @ status ((endpoint_poll_body_multilabel describe ^^ k) ?s1)))
             (emit (Printed (''Arn: '' @ EndpointArn (resp ((endpoint_poll_body_multilabel describe ^^ k) ?s1))))
                ((endpoint_poll_body_multilabel describe ^^ k) ?s1)))"
    by (simp only: endpoint_poll_multilabel_def Let_def option.case)
  then show ?thesis
    unfolding endpoint_poll_iterations_multilabel by (simp add: emit_def)
qed

lemma endpoint_poll_multilabel_never:
  assumes "\<forall>j. \<not> endpoint_terminal (endpoint_statuses describe s j)"
  shows "endpoint_poll_multilabel describe s = None"
proof -
  let ?s1 = "query_endpoint describe s"
  have "endpoint_poll_loop_multilabel describe ?s1 = None"
    unfolding endpoint_poll_loop_multilabel_def
  proof (rule while_loop_never)
    show "\<forall>j. \<not> endpoint_terminal (endpoint_statuses describe s j)"
      by (rule assms)
  qed (unfold endpoint_poll_iterations_multilabel, simp add: endpoint_terminal_def)
  then show ?thesis
    by (simp only: endpoint_poll_multilabel_def Let_def option.case)
qed

text \<open>
  Claim C2, amended. Every status-polling loop in the notebooks sleeps 60 seconds between
  consecutive status queries and exits exactly when the observed status becomes terminal:
  for a training job when it is \<open>Completed\<close> or \<open>Failed\<close>, for an endpoint when it is no
  longer \<open>Creating\<close>. If the first terminal status is the \<open>k\<close>-th observed after the first
  query, the loop stops after \<open>k\<close> iterations; if no observed status is terminal it never
  exits. Besides sleeping, querying and printing, it changes only the variable \<open>status\<close>
  and, in the endpoint loops, the variable \<open>resp\<close> that holds the last response.
\<close>

theorem poll_loops_stop_at_first_terminal_status:
  "(first_at training_terminal (training_statuses describe_job s) k \<longrightarrow>
      training_poll describe_job s =
        Some (s\<lparr>status := training_statuses describe_job s k, calls := calls s + k + 1,
                events := events s @ training_poll_events (training_statuses describe_job s) k\<rparr>))
   \<and> ((\<forall>j. \<not> training_terminal (training_statuses describe_job s j)) \<longrightarrow>
      training_poll describe_job s = None)
   \<and> (first_at endpoint_terminal (endpoint_statuses describe_endpoint e) k \<longrightarrow>
      endpoint_poll_mnist describe_endpoint e =
        Some (e\<lparr>status := endpoint_statuses describe_endpoint e k, calls := calls e + k + 1,
                events := events e @ endpoint_poll_events_mnist (endpoint_statuses describe_endpoint e) k
                  @ [Printed (''Arn: '' @ EndpointArn (describe_endpoint (calls e + k))),
                     Printed (''Status: '' @ endpoint_statuses describe_endpoint e k)],
                resp := describe_endpoint (calls e + k)\<rparr>)
      \<and> endpoint_poll_multilabel describe_endpoint e =
        Some (e\<lparr>status := endpoint_statuses describe_endpoint e k, calls := calls e + k + 1,
                events := events e @ endpoint_poll_events_multilabel (endpoint_statuses describe_endpoint e) k
                  @ [Printed (''Arn: '' @ EndpointArn (describe_endpoint (calls e + k))),
                     Printed (''Status: '' @ endpoint_statuses describe_endpoint e k)],
                resp := describe_endpoint (calls e + k)\<rparr>))
   \<and> ((\<forall>j. \<not> endpoint_terminal (endpoint_statuses describe_endpoint e j)) \<longrightarrow>
      endpoint_poll_mnist describe_endpoint e = None
      \<and> endpoint_poll_multilabel describe_endpoint e = None)"
  using training_poll_exits training_poll_never endpoint_poll_mnist_exits endpoint_poll_mnist_never
    endpoint_poll_multilabel_exits endpoint_poll_multilabel_never
  by blast

theorem poll_loops_stop_at_first_terminal_status_witness:
  "training_poll (\<lambda>n. \<lparr>TrainingJobStatus = if n < 2 then ''InProgress'' else ''Completed'', FailureReason = []\<rparr>)
      \<lparr>status = [], calls = 0, events = []\<rparr> =
     Some \<lparr>status = ''Completed'', calls = 3,
           events = [Describe, Printed ''InProgress'', Sleep 60, Describe, Printed ''InProgress'',
                     Sleep 60, Describe, Printed ''Completed'']\<rparr>
   \<and> training_poll (\<lambda>n. \<lparr>TrainingJobStatus = ''InProgress'', FailureReason = []\<rparr>)
      \<lparr>status = [], calls = 0, events = []\<rparr> = None
   \<and> endpoint_poll_mnist (\<lambda>n. \<lparr>EndpointStatus = if n < 1 then ''Creating'' else ''InService'', EndpointArn = ''arn''\<rparr>)
      \<lparr>status = [], calls = 0, events = [], resp = \<lparr>EndpointStatus = [], EndpointArn = []\<rparr>\<rparr> =
     Some \<lparr>status = ''InService'', calls = 2,
           events = [Describe, Printed ''Status: Creating'', Sleep 60, Describe, Printed ''Status: InService'',
                     Printed ''Arn: arn'', Printed ''Status: InService''],
           resp = \<lparr>EndpointStatus = ''InService'', EndpointArn = ''arn''\<rparr>\<rparr>
   \<and> endpoint_poll_multilabel (\<lambda>n. \<lparr>EndpointStatus = if n < 1 then ''Creating'' else ''InService'', EndpointArn = ''arn''\<rparr>)
      \<lparr>status = [], calls = 0, events = [], resp = \<lparr>EndpointStatus = [], EndpointArn = []\<rparr>\<rparr> =
     Some \<lparr>status = ''InService'', calls = 2,
           events = [Describe, Printed ''Status: Creating'', Sleep 60, Describe,
                     Printed ''Arn: arn'', Printed ''Status: InService''],
           resp = \<lparr>EndpointStatus = ''InService'', EndpointArn = ''arn''\<rparr>\<rparr>
   \<and> endpoint_poll_mnist (\<lambda>n. \<lparr>EndpointStatus = ''Creating'', EndpointArn = ''arn''\<rparr>)
      \<lparr>status = [], calls = 0, events = [], resp = \<lparr>EndpointStatus = [], EndpointArn = []\<rparr>\<rparr> = None
   \<and> endpoint_poll_multilabel (\<lambda>n. \<lparr>EndpointStatus = ''Creating'', EndpointArn = ''arn''\<rparr>)
      \<lparr>status = [], calls = 0, events = [], resp = \<lparr>EndpointStatus = [], EndpointArn = []\<rparr>\<rparr> = None"
  using
    poll_loops_stop_at_first_terminal_status
      [of "\<lambda>n. \<lparr>TrainingJobStatus = if n < 2 then ''InProgress'' else ''Completed'', FailureReason = []\<rparr>"
          "\<lparr>status = [], calls = 0, events = []\<rparr>" 2
          "\<lambda>n. \<lparr>EndpointStatus = ''Creating'', EndpointArn = ''arn''\<rparr>"
          "\<lparr>status = [], calls = 0, events = [], resp = \<lparr>EndpointStatus = [], EndpointArn = []\<rparr>\<rparr>"]
    poll_loops_stop_at_first_terminal_status
      [of "\<lambda>n. \<lparr>TrainingJobStatus = ''InProgress'', FailureReason = []\<rparr>"
          "\<lparr>status = [], calls = 0, events = []\<rparr>" 1
          "\<lambda>n. \<lparr>EndpointStatus = if n < 1 then ''Creating'' else ''InService'', EndpointArn = ''arn''\<rparr>"
          "\<lparr>status = [], calls = 0, events = [], resp = \<lparr>EndpointStatus = [], EndpointArn = []\<rparr>\<rparr>"]
  by (simp add: first_at_def training_terminal_def endpoint_terminal_def training_statuses_def
      endpoint_statuses_def training_poll_events_def endpoint_poll_events_mnist_def
      endpoint_poll_events_multilabel_def less_Suc_eq eval_nat_numeral)

text \<open>
  An endpoint loop entered with status \<open>Creating\<close> replaces \<open>resp\<close> as well as
  \<open>status\<close>.
\<close>

theorem endpoint_poll_loop_changes_resp:
  "endpoint_poll_loop_mnist
      (\<lambda>n. \<lparr>EndpointStatus = if n < 1 then ''Creating'' else ''InService'', EndpointArn = ''arn''\<rparr>)
      \<lparr>status = ''Creating'', calls = 1, events = [],
        resp = \<lparr>EndpointStatus = ''Creating'', EndpointArn = ''arn''\<rparr>\<rparr> =
     Some \<lparr>status = ''InService'', calls = 2,
           events = [Sleep 60, Describe, Printed ''Status: InService''],
           resp = \<lparr>EndpointStatus = ''InService'', EndpointArn = ''arn''\<rparr>\<rparr>
   \<and> resp \<lparr>status = ''InService'', calls = 2,
           events = [Sleep 60, Describe, Printed ''Status: InService''],
           resp = \<lparr>EndpointStatus = ''InService'', EndpointArn = ''arn''\<rparr>\<rparr>
     \<noteq> resp \<lparr>status = ''Creating'', calls = 1, events = [],
           resp = \<lparr>EndpointStatus = ''Creating'', EndpointArn = ''arn''\<rparr>\<rparr>"
  unfolding endpoint_poll_loop_mnist_def
  by (subst while_loop.simps, subst while_loop.simps)
    (simp add: endpoint_poll_body_mnist_def query_endpoint_def emit_def Let_def)

section \<open>Theorems: checking the status after waiting\<close>









section \<open>Theorems: visualize_detection\<close>

lemma vis_step_below:
  assumes "float_lt (det_score det) thresh"
  shows "vis_step random fmt_score h w classes thresh det s = (s, None)"
  using assms by (cases det) (simp add: vis_step_def det_score_def)

lemma vis_step_drawn:
  assumes "drawn thresh det"
    and "snd (vis_step random fmt_score h w classes thresh det s) = None"
  shows "\<exists>r. patches (fst (vis_step random fmt_score h w classes thresh det s)) = patches s @ [r]
            \<and> det_corners h w det = corners r"
  using assms
  by (cases det)
    (auto simp: vis_step_def det_score_def det_corners_def top_left_def bottom_right_def Let_def
      drawn_def corners_def split: sum.splits if_splits)

lemma vis_step_corners:
  assumes "snd (vis_step random fmt_score h w classes thresh det s) = None"
  shows "map corners (patches (fst (vis_step random fmt_score h w classes thresh det s))) =
     map corners (patches s) @ map (det_corners h w) (filter (drawn thresh) [det])"
proof (cases "drawn thresh det")
  case True
  then obtain r where "patches (fst (vis_step random fmt_score h w classes thresh det s)) = patches s @ [r]"
    and "det_corners h w det = corners r"
    using vis_step_drawn [OF True assms] by blast
  with True show ?thesis
    by simp
next
  case False
  then show ?thesis
    by (simp add: vis_step_below drawn_def)
qed

lemma vis_loop_corners:
  assumes "snd (vis_loop random fmt_score h w classes thresh dets s) = None"
  shows "map corners (patches (fst (vis_loop random fmt_score h w classes thresh dets s))) =
           map corners (patches s) @ map (det_corners h w) (filter (drawn thresh) dets)"
  using assms
proof (induction dets arbitrary: s)
  case Nil
  show ?case by simp
next
  case (Cons det dets)
  obtain s' err where step: "vis_step random fmt_score h w classes thresh det s = (s', err)"
    by (cases "vis_step random fmt_score h w classes thresh det s")
  with Cons.prems have none: "err = None"
    by (cases err) simp_all
  have first: "map corners (patches s') =
     map corners (patches s) @ map (det_corners h w) (filter (drawn thresh) [det])"
    using vis_step_corners [of random fmt_score h w classes thresh det s]
    by (simp only: step none fst_conv snd_conv)
  have "snd (vis_loop random fmt_score h w classes thresh dets s') = None"
    using Cons.prems by (simp add: step none)
  then have "map corners (patches (fst (vis_loop random fmt_score h w classes thresh dets s'))) =
           map corners (patches s') @ map (det_corners h w) (filter (drawn thresh) dets)"
    by (rule Cons.IH)
  with first show ?case
    by (simp add: step none)
qed

lemma int_of_product_exact:
  assumes "x * real n \<in> \<int>" and "\<bar>x * real n\<bar> < 2 ^ 53" and "n < 2 ^ 53"
  shows "int_of_product (Finite x) n = Inr \<lfloor>x * real n\<rfloor>"
proof -
  have "\<bar>int n\<bar> < 2 ^ 53"
    using assms(3) by (metis abs_of_nat of_nat_less_numeral_power_cancel_iff)
  then have "float_of_int (int n) = Inr (Finite (real n))"
    using float_of_int_small [of "int n"] by simp
  moreover obtain i where i: "x * real n = of_int i"
    using assms(1) by (rule Ints_cases)
  ultimately show ?thesis
    using round64_Ints [OF assms(1,2)]
    by (simp add: int_of_product_def float_mul_def py_int_def)
qed

text \<open>
  Claim C6, amended. In a call of \<open>visualize_detection\<close> that raises nothing, a rectangle
  is drawn for a detection \<open>(klass, score, x0, y0, x1, y1)\<close> if and only if \<open>score < thresh\<close>
  is false, that is if \<open>score >= thresh\<close> or one of the two is NaN; the rectangle's
  top-left corner is \<open>(int(x0 * width), int(y0 * height))\<close> and its bottom-right corner
  \<open>(int(x1 * width), int(y1 * height))\<close>, for the image's width and height, and the
  rectangles drawn are, in order, those of these detections. A detection with
  \<open>score < thresh\<close> leaves the plot unchanged. When a detection raises, the loop ends
  there: no later detection is drawn.
\<close>

theorem visualize_detection_draws_unless_below_threshold:
  "(float_lt (det_score det) thresh \<longrightarrow>
      vis_step random fmt_score h w classes thresh det s = (s, None))
   \<and> (drawn thresh det \<and> snd (vis_step random fmt_score h w classes thresh det s) = None \<longrightarrow>
      (\<exists>r. patches (fst (vis_step random fmt_score h w classes thresh det s)) = patches s @ [r]
           \<and> det_corners h w det = Inr (top_left r, bottom_right r)))
   \<and> (snd (visualize_detection random fmt_score (h, w) dets classes thresh) = None \<longrightarrow>
      map (\<lambda>r. Inr (top_left r, bottom_right r))
        (patches (fst (visualize_detection random fmt_score (h, w) dets classes thresh))) =
      map (det_corners h w) (filter (drawn thresh) dets))
   \<and> drawn thresh det =
       (float_ge (det_score det) thresh \<or> det_score det = NaN \<or> thresh = NaN)
   \<and> (snd (vis_step random fmt_score h w classes thresh det s) \<noteq> None \<longrightarrow>
      vis_loop random fmt_score h w classes thresh (det # dets) s =
        vis_step random fmt_score h w classes thresh det s)"
proof (intro conjI impI)
  assume "float_lt (det_score det) thresh"
  then show "vis_step random fmt_score h w classes thresh det s = (s, None)"
    by (rule vis_step_below)
next
  assume "drawn thresh det \<and> snd (vis_step random fmt_score h w classes thresh det s) = None"
  then have "\<exists>r. patches (fst (vis_step random fmt_score h w classes thresh det s)) = patches s @ [r]
            \<and> det_corners h w det = corners r"
    by (intro vis_step_drawn) simp_all
  then show "\<exists>r. patches (fst (vis_step random fmt_score h w classes thresh det s)) = patches s @ [r]
           \<and> det_corners h w det = Inr (top_left r, bottom_right r)"
    by (simp add: corners_def)
next
  assume "snd (visualize_detection random fmt_score (h, w) dets classes thresh) = None"
  then have "snd (vis_loop random fmt_score h w classes thresh dets
                     \<lparr>colors = Map.empty, draws = 0, patches = [], texts = []\<rparr>) = None"
    by (simp add: visualize_detection_def)
  then have "map corners (patches (fst (vis_loop random fmt_score h w classes thresh dets
                     \<lparr>colors = Map.empty, draws = 0, patches = [], texts = []\<rparr>))) =
           map corners (patches \<lparr>colors = Map.empty, draws = 0, patches = [], texts = []\<rparr>)
           @ map (det_corners h w) (filter (drawn thresh) dets)"
    by (rule vis_loop_corners)
  then show "map (\<lambda>r. Inr (top_left r, bottom_right r))
        (patches (fst (visualize_detection random fmt_score (h, w) dets classes thresh))) =
      map (det_corners h w) (filter (drawn thresh) dets)"
    by (simp add: visualize_detection_def corners_def [abs_def])
next
  show "drawn thresh det =
       (float_ge (det_score det) thresh \<or> det_score det = NaN \<or> thresh = NaN)"
    unfolding drawn_def by (rule float_lt_iff_not_ge)
next
  assume "snd (vis_step random fmt_score h w classes thresh det s) \<noteq> None"
  then show "vis_loop random fmt_score h w classes thresh (det # dets) s =
        vis_step random fmt_score h w classes thresh det s"
    by (cases "vis_step random fmt_score h w classes thresh det s") auto
qed

theorem visualize_detection_draws_unless_below_threshold_witness:
  "float_lt (det_score (Finite 1, Finite (1 / 8), Finite 0, Finite 0, Finite 1, Finite 1)) (Finite (1 / 2))
   \<and> vis_step (\<lambda>k. Finite 0) (\<lambda>x. ''0.125'') 100 200 [''cat'', ''dog''] (Finite (1 / 2))
      (Finite 1, Finite (1 / 8), Finite 0, Finite 0, Finite 1, Finite 1)
      \<lparr>colors = Map.empty, draws = 0, patches = [], texts = []\<rparr> =
     (\<lparr>colors = Map.empty, draws = 0, patches = [], texts = []\<rparr>, None)
   \<and> drawn (Finite (1 / 2))
        (Finite 1, Finite (3 / 4), Finite (1 / 8), Finite (1 / 4), Finite (1 / 2), Finite (3 / 4))
   \<and> vis_step (\<lambda>k. Finite 0) (\<lambda>x. ''0.750'') 100 200 [''cat'', ''dog''] (Finite (1 / 2))
      (Finite 1, Finite (3 / 4), Finite (1 / 8), Finite (1 / 4), Finite (1 / 2), Finite (3 / 4))
      \<lparr>colors = Map.empty, draws = 0, patches = [], texts = []\<rparr> =
     (\<lparr>colors = [1 \<mapsto> (Finite 0, Finite 0, Finite 0)], draws = 3,
        patches = [\<lparr>xy = (25, 25), width = 75, height = 50, fill = False,
                    edgecolor = (Finite 0, Finite 0, Finite 0), linewidth = Finite 3.5\<rparr>],
        texts = [\<lparr>position = (25, 23), content = ''dog 0.750'',
                  facecolor = (Finite 0, Finite 0, Finite 0)\<rparr>]\<rparr>, None)
   \<and> snd (visualize_detection (\<lambda>k. Finite 0) (\<lambda>x. ''0.125'') (100, 200)
            [(Finite 1, Finite (3 / 4), Finite (1 / 8), Finite (1 / 4), Finite (1 / 2), Finite (3 / 4)),
             (Finite 0, Finite (1 / 8), Finite 0, Finite 0, Finite 1, Finite 1),
             (Finite 0, Finite (1 / 2), Finite 0, Finite 0, Finite 1, Finite 1)]
            [''cat'', ''dog''] (Finite (1 / 2))) = None
   \<and> map (\<lambda>r. (top_left r, bottom_right r))
         (patches (fst (visualize_detection (\<lambda>k. Finite 0) (\<lambda>x. ''0.125'') (100, 200)
            [(Finite 1, Finite (3 / 4), Finite (1 / 8), Finite (1 / 4), Finite (1 / 2), Finite (3 / 4)),
             (Finite 0, Finite (1 / 8), Finite 0, Finite 0, Finite 1, Finite 1),
             (Finite 0, Finite (1 / 2), Finite 0, Finite 0, Finite 1, Finite 1)]
            [''cat'', ''dog''] (Finite (1 / 2))))) =
     [((25, 25), (100, 75)), ((0, 0), (200, 100))]
   \<and> snd (vis_step (\<lambda>k. Finite 0) (\<lambda>x. ''0.750'') 100 200 [''cat'', ''dog''] (Finite (1 / 2))
      (NaN, Finite (3 / 4), Finite (1 / 8), Finite (1 / 4), Finite (1 / 2), Finite (3 / 4))
      \<lparr>colors = Map.empty, draws = 0, patches = [], texts = []\<rparr>) \<noteq> None
   \<and> vis_loop (\<lambda>k. Finite 0) (\<lambda>x. ''0.750'') 100 200 [''cat'', ''dog''] (Finite (1 / 2))
      [(NaN, Finite (3 / 4), Finite (1 / 8), Finite (1 / 4), Finite (1 / 2), Finite (3 / 4)),
       (Finite 0, Finite (1 / 2), Finite 0, Finite 0, Finite 1, Finite 1)]
      \<lparr>colors = Map.empty, draws = 0, patches = [], texts = []\<rparr> =
     (\<lparr>colors = Map.empty, draws = 0, patches = [], texts = []\<rparr>, Some ValueError)"
  using
    visualize_detection_draws_unless_below_threshold
      [where det = "(Finite 1, Finite (1 / 8), Finite 0, Finite 0, Finite 1, Finite 1)"
         and thresh = "Finite (1 / 2)" and random = "\<lambda>k. Finite 0" and fmt_score = "\<lambda>x. ''0.125''"
         and h = 100 and w = 200 and classes = "[''cat'', ''dog'']"
         and s = "\<lparr>colors = Map.empty, draws = 0, patches = [], texts = []\<rparr>"
         and dets = "[(Finite 1, Finite (3 / 4), Finite (1 / 8), Finite (1 / 4), Finite (1 / 2), Finite (3 / 4)),
             (Finite 0, Finite (1 / 8), Finite 0, Finite 0, Finite 1, Finite 1),
             (Finite 0, Finite (1 / 2), Finite 0, Finite 0, Finite 1, Finite 1)]"]
    visualize_detection_draws_unless_below_threshold
      [where det = "(Finite 1, Finite (3 / 4), Finite (1 / 8), Finite (1 / 4), Finite (1 / 2), Finite (3 / 4))"
         and thresh = "Finite (1 / 2)" and random = "\<lambda>k. Finite 0" and fmt_score = "\<lambda>x. ''0.750''"
         and h = 100 and w = 200 and classes = "[''cat'', ''dog'']"
         and s = "\<lparr>colors = Map.empty, draws = 0, patches = [], texts = []\<rparr>"
         and dets = "[]"]
    visualize_detection_draws_unless_below_threshold
      [where det = "(NaN, Finite (3 / 4), Finite (1 / 8), Finite (1 / 4), Finite (1 / 2), Finite (3 / 4))"
         and thresh = "Finite (1 / 2)" and random = "\<lambda>k. Finite 0" and fmt_score = "\<lambda>x. ''0.750''"
         and h = 100 and w = 200 and classes = "[''cat'', ''dog'']"
         and s = "\<lparr>colors = Map.empty, draws = 0, patches = [], texts = []\<rparr>"
         and dets = "[(Finite 0, Finite (1 / 2), Finite 0, Finite 0, Finite 1, Finite 1)]"]
  by (simp add: det_score_def vis_step_def Let_def list_get_def float_lt_def py_int_def drawn_def
      int_of_product_exact visualize_detection_def top_left_def bottom_right_def)

text \<open>
  Where the sentence of the claim fails. A detection whose score is NaN is drawn, although
  \<open>score >= thresh\<close> is false. And a call that raises draws nothing after the exception:
  with two class names, the class id \<open>-5\<close> raises \<open>IndexError\<close> at \<^verbatim>\<open>classes[cls_id]\<close>, after
  the rectangle of that detection has been added, and the next detection is not drawn
  although its score is above the threshold.
\<close>

theorem visualize_detection_nan_score_and_raising_call:
  "\<not> float_ge (det_score (Finite 1, NaN, Finite (1 / 8), Finite (1 / 4), Finite (1 / 2), Finite (3 / 4)))
        (Finite (1 / 2))
   \<and> map (\<lambda>r. (top_left r, bottom_right r))
        (patches (fst (visualize_detection (\<lambda>k. Finite 0) (\<lambda>x. ''nan'') (100, 200)
           [(Finite 1, NaN, Finite (1 / 8), Finite (1 / 4), Finite (1 / 2), Finite (3 / 4))]
           [''cat'', ''dog''] (Finite (1 / 2))))) =
       [((25, 25), (100, 75))]
   \<and> float_ge (det_score (Finite 1, Finite (3 / 4), Finite 0, Finite 0, Finite 1, Finite 1))
        (Finite (1 / 2))
   \<and> snd (visualize_detection (\<lambda>k. Finite 0) (\<lambda>x. ''0.750'') (100, 200)
           [(Finite (- 5), Finite (3 / 4), Finite (1 / 8), Finite (1 / 4), Finite (1 / 2), Finite (3 / 4)),
            (Finite 1, Finite (3 / 4), Finite 0, Finite 0, Finite 1, Finite 1)]
           [''cat'', ''dog''] (Finite (1 / 2))) = Some IndexError
   \<and> map (\<lambda>r. (top_left r, bottom_right r))
        (patches (fst (visualize_detection (\<lambda>k. Finite 0) (\<lambda>x. ''0.750'') (100, 200)
           [(Finite (- 5), Finite (3 / 4), Finite (1 / 8), Finite (1 / 4), Finite (1 / 2), Finite (3 / 4)),
            (Finite 1, Finite (3 / 4), Finite 0, Finite 0, Finite 1, Finite 1)]
           [''cat'', ''dog''] (Finite (1 / 2))))) =
       [((25, 25), (100, 75))]"
  by (simp add: det_score_def vis_step_def Let_def list_get_def float_lt_def float_ge_def py_int_def
      int_of_product_exact visualize_detection_def top_left_def bottom_right_def)

section \<open>Theorems: word vectors and similarity\<close>

lemma dict_set_nonzero:
  assumes "nonzero_norms d" and "np_norm arr \<noteq> 0"
  shows "nonzero_norms (dict_set d word arr)"
  using assms by (induction d) (auto simp: nonzero_norms_def)

lemma store_vectors_nonzero:
  assumes "nonzero_norms d"
  shows "nonzero_norms (store_vectors vecs d)"
  using assms
proof (induction vecs arbitrary: d)
  case Nil
  then show ?case by simp
next
  case (Cons p vecs)
  obtain word arr where p: "p = (word, arr)"
    by (cases p)
  show ?case
    using Cons by (simp add: p dict_set_nonzero)
qed

lemma collect_body_nonzero:
  assumes "nonzero_norms (word_vectors s)"
  shows "nonzero_norms (word_vectors (collect_body predict query_words batch_size s))"
  using assms by (simp add: collect_body_def Let_def store_vectors_nonzero)

lemma collect_iterations_nonzero:
  "nonzero_norms (word_vectors ((collect_body predict query_words batch_size ^^ n) (collect_start batch_size)))"
proof (induction n)
  case 0
  show ?case by (simp add: collect_start_def nonzero_norms_def)
next
  case (Suc n)
  then show ?case by (simp add: collect_body_nonzero)
qed

lemma collect_vectors_nonzero:
  assumes "collect_vectors predict query_words batch_size = Some s"
  shows "nonzero_norms (word_vectors s)"
proof -
  from assms have "\<exists>k. s = (collect_body predict query_words batch_size ^^ k) (collect_start batch_size)
      \<and> \<not> length (word_vectors s) \<noteq> length query_words"
    unfolding collect_vectors_def by (rule while_loop_result)
  then obtain k where "s = (collect_body predict query_words batch_size ^^ k) (collect_start batch_size)"
    by blast
  then show ?thesis
    by (simp only: collect_iterations_nonzero)
qed

lemma nonzero_norms_lookup:
  assumes "nonzero_norms d" and "map_of d word = Some v"
  shows "np_norm v \<noteq> 0"
  using assms by (auto simp: nonzero_norms_def list_all_iff dest!: map_of_SomeD)

lemma similarity_no_zero_division:
  assumes "np_norm v1 \<noteq> 0" and "np_norm v2 \<noteq> 0"
  shows "similarity v1 v2 \<noteq> Inl ZeroDivisionError"
  using assms by (simp add: similarity_def np_divide_def np_dot_def Let_def)

lemma similarity_value:
  assumes "np_norm v1 \<noteq> 0" and "np_norm v2 \<noteq> 0" and "length v1 = length v2"
  shows "similarity v1 v2 =
           Inr (sum_list (map (\<lambda>(x, y). x * y) (zip v1 v2)) / np_norm v1 / np_norm v2)"
  using assms by (simp add: similarity_def np_divide_def np_dot_def Let_def)

lemma nonzero_norms_pairs:
  assumes "nonzero_norms d"
  shows "\<forall>word1 word2 v1 v2.
           map_of d word1 = Some v1 \<longrightarrow> map_of d word2 = Some v2 \<longrightarrow>
             np_norm v1 \<noteq> 0 \<and> np_norm v2 \<noteq> 0
             \<and> word_similarity d word1 word2 = Some (similarity v1 v2)
             \<and> similarity v1 v2 \<noteq> Inl ZeroDivisionError
             \<and> (length v1 = length v2 \<longrightarrow>
                  similarity v1 v2 =
                    Inr (sum_list (map (\<lambda>(x, y). x * y) (zip v1 v2)) / np_norm v1 / np_norm v2))"
proof (intro allI impI)
  fix word1 word2 v1 v2
  assume 1: "map_of d word1 = Some v1" and 2: "map_of d word2 = Some v2"
  have n1: "np_norm v1 \<noteq> 0"
    using assms 1 by (rule nonzero_norms_lookup)
  have n2: "np_norm v2 \<noteq> 0"
    using assms 2 by (rule nonzero_norms_lookup)
  show "np_norm v1 \<noteq> 0 \<and> np_norm v2 \<noteq> 0
             \<and> word_similarity d word1 word2 = Some (similarity v1 v2)
             \<and> similarity v1 v2 \<noteq> Inl ZeroDivisionError
             \<and> (length v1 = length v2 \<longrightarrow>
                  similarity v1 v2 =
                    Inr (sum_list (map (\<lambda>(x, y). x * y) (zip v1 v2)) / np_norm v1 / np_norm v2))"
    using n1 n2 similarity_no_zero_division [OF n1 n2] similarity_value [OF n1 n2]
    by (simp add: word_similarity_def 1 2)
qed

text \<open>
  Claim C7. A word vector is stored in the dictionary \<open>vectors\<close> only if its Euclidean
  norm is not zero: this holds after any number of iterations of the collecting loop,
  and of its result when it ends. So for any two vectors \<open>v1\<close>, \<open>v2\<close> looked up in that
  dictionary both norms are non-zero and \<^verbatim>\<open>np.dot(v1, v2) / n1 / n2\<close> never divides by zero;
  for vectors of one length it is the inner product divided by the two norms.
\<close>

theorem stored_vectors_have_nonzero_norm:
  "nonzero_norms (word_vectors ((collect_body predict query_words batch_size ^^ n) (collect_start batch_size)))
   \<and> (\<forall>s. collect_vectors predict query_words batch_size = Some s \<longrightarrow> nonzero_norms (word_vectors s))
   \<and> (nonzero_norms d \<longrightarrow>
        (\<forall>word1 word2 v1 v2.
           map_of d word1 = Some v1 \<longrightarrow> map_of d word2 = Some v2 \<longrightarrow>
             np_norm v1 \<noteq> 0 \<and> np_norm v2 \<noteq> 0
             \<and> word_similarity d word1 word2 = Some (similarity v1 v2)
             \<and> similarity v1 v2 \<noteq> Inl ZeroDivisionError
             \<and> (length v1 = length v2 \<longrightarrow>
                  similarity v1 v2 =
                    Inr (sum_list (map (\<lambda>(x, y). x * y) (zip v1 v2)) / np_norm v1 / np_norm v2))))"
proof (intro conjI)
  show "nonzero_norms (word_vectors ((collect_body predict query_words batch_size ^^ n) (collect_start batch_size)))"
    by (rule collect_iterations_nonzero)
  show "\<forall>s. collect_vectors predict query_words batch_size = Some s \<longrightarrow> nonzero_norms (word_vectors s)"
    by (intro allI impI) (rule collect_vectors_nonzero)
  show "nonzero_norms d \<longrightarrow>
        (\<forall>word1 word2 v1 v2.
           map_of d word1 = Some v1 \<longrightarrow> map_of d word2 = Some v2 \<longrightarrow>
             np_norm v1 \<noteq> 0 \<and> np_norm v2 \<noteq> 0
             \<and> word_similarity d word1 word2 = Some (similarity v1 v2)
             \<and> similarity v1 v2 \<noteq> Inl ZeroDivisionError
             \<and> (length v1 = length v2 \<longrightarrow>
                  similarity v1 v2 =
                    Inr (sum_list (map (\<lambda>(x, y). x * y) (zip v1 v2)) / np_norm v1 / np_norm v2)))"
    by (intro impI) (rule nonzero_norms_pairs)
qed

theorem stored_vectors_have_nonzero_norm_witness:
  "collect_vectors (\<lambda>ws. map (\<lambda>w. (w, if w = ''nil'' then [0, 0] else [1, 0])) ws) [''a'', ''b''] 500 =
     Some \<lparr>word_vectors = [(''a'', [1, 0]), (''b'', [1, 0])], batch_start = 500, batch_end = 502\<rparr>
   \<and> nonzero_norms [(''a'', [1, 0]), (''b'', [1, 0])]
   \<and> word_similarity [(''a'', [1, 0]), (''b'', [1, 0])] ''a'' ''b'' = Some (Inr 1)
   \<and> word_vectors ((collect_body (\<lambda>ws. map (\<lambda>w. (w, if w = ''nil'' then [0, 0] else [1, 0])) ws)
                        [''a'', ''nil''] 500 ^^ 2) (collect_start 500)) = [(''a'', [1, 0])]"
proof -
  let ?predict = "\<lambda>ws. map (\<lambda>w. (w, if w = ''nil'' then [0, 0] else [1 :: real, 0])) ws"
  have run: "collect_vectors ?predict [''a'', ''b''] 500 =
     Some \<lparr>word_vectors = [(''a'', [1, 0]), (''b'', [1, 0])], batch_start = 500, batch_end = 502\<rparr>"
    unfolding collect_vectors_def
    by (subst while_loop.simps, subst while_loop.simps)
      (simp add: collect_body_def collect_start_def Let_def py_slice_def slice_bound_def np_norm_def)
  have skip: "word_vectors ((collect_body ?predict [''a'', ''nil''] 500 ^^ 2) (collect_start 500)) =
     [(''a'', [1, 0])]"
    by (simp add: eval_nat_numeral collect_body_def collect_start_def Let_def py_slice_def
        slice_bound_def np_norm_def)
  have stored: "nonzero_norms [(''a'', [1, 0]), (''b'', [1, 0])]"
    using stored_vectors_have_nonzero_norm
        [where predict = ?predict and query_words = "[''a'', ''b'']" and batch_size = 500]
      run
    by simp
  have "word_similarity [(''a'', [1, 0]), (''b'', [1, 0])] ''a'' ''b'' = Some (similarity [1, 0] [1, 0])"
    using stored_vectors_have_nonzero_norm [where d = "[(''a'', [1, 0]), (''b'', [1, 0])]"]
      stored
    by simp
  then have sim: "word_similarity [(''a'', [1, 0]), (''b'', [1, 0])] ''a'' ''b'' = Some (Inr 1)"
    by (simp add: similarity_def np_dot_def np_divide_def np_norm_def)
  from run stored sim skip show ?thesis
    by (intro conjI)
qed

section \<open>Theorems: stripping the label prefix\<close>

lemma deepcopy_refs_keeps:
  assumes "deepcopy_refs xs memo h = (ys, memo', h')"
  shows "next_free h \<le> next_free h' \<and> (\<forall>a < next_free h. cells h' a = cells h a)"
  using assms
proof (induction xs arbitrary: memo h ys memo' h')
  case Nil
  then show ?case by simp
next
  case (Cons x xs)
  show ?case
  proof (cases "map_of memo x")
    case (Some x')
    with Cons.prems obtain zs where "deepcopy_refs xs memo h = (zs, memo', h')"
      by (auto split: prod.splits)
    then show ?thesis by (rule Cons.IH)
  next
    case None
    let ?h1 = "h\<lparr>cells := (cells h)(next_free h := cells h x), next_free := next_free h + 1\<rparr>"
    from None Cons.prems obtain zs where "deepcopy_refs xs ((x, next_free h) # memo) ?h1 = (zs, memo', h')"
      by (auto simp: allocate_def split: prod.splits)
    then have "next_free ?h1 \<le> next_free h' \<and> (\<forall>a < next_free ?h1. cells h' a = cells ?h1 a)"
      by (rule Cons.IH)
    then show ?thesis by auto
  qed
qed

lemma deepcopy_refs_copies:
  assumes "deepcopy_refs xs memo h = (ys, memo', h')"
    and "\<forall>a \<in> set xs. a < next_free h"
    and "\<forall>(a, a') \<in> set memo. a < next_free h \<and> a' < next_free h \<and> cells h a' = cells h a"
  shows "length ys = length xs
       \<and> (\<forall>y \<in> set ys. y < next_free h')
       \<and> (\<forall>i < length xs. cells h' (ys ! i) = cells h (xs ! i))"
  using assms
proof (induction xs arbitrary: memo h ys memo' h')
  case Nil
  then show ?case by simp
next
  case (Cons x xs)
  show ?case
  proof (cases "map_of memo x")
    case (Some x')
    with Cons.prems(1) obtain zs where rest: "deepcopy_refs xs memo h = (zs, memo', h')"
      and ys: "ys = x' # zs"
      by (auto split: prod.splits)
    from Some have mem: "(x, x') \<in> set memo"
      by (rule map_of_SomeD)
    with Cons.prems(3) have x': "x' < next_free h" "cells h x' = cells h x"
      by auto
    have keeps: "next_free h \<le> next_free h' \<and> (\<forall>a < next_free h. cells h' a = cells h a)"
      using rest by (rule deepcopy_refs_keeps)
    have IH: "length zs = length xs \<and> (\<forall>y \<in> set zs. y < next_free h')
       \<and> (\<forall>i < length xs. cells h' (zs ! i) = cells h (xs ! i))"
      using rest Cons.prems(2,3) by (intro Cons.IH) auto
    show ?thesis
      using IH keeps x' by (auto simp: ys nth_Cons split: nat.splits)
  next
    case None
    let ?h1 = "h\<lparr>cells := (cells h)(next_free h := cells h x), next_free := next_free h + 1\<rparr>"
    from None Cons.prems(1) obtain zs where rest: "deepcopy_refs xs ((x, next_free h) # memo) ?h1 = (zs, memo', h')"
      and ys: "ys = next_free h # zs"
      by (auto simp: allocate_def split: prod.splits)
    have keeps: "next_free ?h1 \<le> next_free h' \<and> (\<forall>a < next_free ?h1. cells h' a = cells ?h1 a)"
      using rest by (rule deepcopy_refs_keeps)
    have x: "x < next_free h"
      using Cons.prems(2) by simp
    have IH: "length zs = length xs \<and> (\<forall>y \<in> set zs. y < next_free h')
       \<and> (\<forall>i < length xs. cells h' (zs ! i) = cells ?h1 (xs ! i))"
    proof (rule Cons.IH [OF rest])
      show "\<forall>a \<in> set xs. a < next_free ?h1"
        using Cons.prems(2) by auto
      show "\<forall>(a, a') \<in> set ((x, next_free h) # memo).
              a < next_free ?h1 \<and> a' < next_free ?h1 \<and> cells ?h1 a' = cells ?h1 a"
        using Cons.prems(3) x by auto
    qed
    have old: "cells ?h1 (xs ! i) = cells h (xs ! i)" if "i < length xs" for i
      using Cons.prems(2) that by (auto simp: all_set_conv_all_nth)
    show ?thesis
      using IH keeps x old by (auto simp: ys nth_Cons split: nat.splits)
  qed
qed

lemma deepcopy_refs_fresh:
  assumes "deepcopy_refs xs memo h = (ys, memo', h')"
    and "distinct xs" and "set xs \<inter> fst ` set memo = {}"
  shows "distinct ys \<and> (\<forall>y \<in> set ys. next_free h \<le> y)"
  using assms
proof (induction xs arbitrary: memo h ys memo' h')
  case Nil
  then show ?case by simp
next
  case (Cons x xs)
  have "x \<notin> fst ` set memo"
    using Cons.prems(3) by auto
  then have None: "map_of memo x = None"
    by (simp add: map_of_eq_None_iff)
  let ?h1 = "h\<lparr>cells := (cells h)(next_free h := cells h x), next_free := next_free h + 1\<rparr>"
  from None Cons.prems(1) obtain zs where rest: "deepcopy_refs xs ((x, next_free h) # memo) ?h1 = (zs, memo', h')"
    and ys: "ys = next_free h # zs"
    by (auto simp: allocate_def split: prod.splits)
  have disjoint: "set xs \<inter> fst ` set ((x, next_free h) # memo) = {}"
    using Cons.prems(2,3) by force
  have "distinct zs \<and> (\<forall>y \<in> set zs. next_free ?h1 \<le> y)"
  proof (rule Cons.IH [OF rest])
    show "distinct xs"
      using Cons.prems(2) by simp
    show "set xs \<inter> fst ` set ((x, next_free h) # memo) = {}"
      by (rule disjoint)
  qed
  then show ?case
    by (auto simp: ys)
qed

lemma py_slice_from9: "py_slice s 9 (int (length s)) = drop 9 s"
  by (simp add: py_slice_def slice_bound_def Let_def min_def)

lemma map_of_dict_set: "map_of (dict_set d k v) k' = (if k' = k then Some v else map_of d k')"
  by (induction d) auto

lemma first_label_SomeD:
  assumes "first_label d = Some s"
  shows "\<exists>rest. map_of d ''label'' = Some (PyList (PyStr s # rest))"
  using assms
  by (auto simp: first_label_def split: option.splits py_value.splits list.splits)

lemma strip_label_frame:
  "next_free (fst (strip_label upper output h)) = next_free h
   \<and> (\<forall>b. b \<noteq> output \<longrightarrow> cells (fst (strip_label upper output h)) b = cells h b)"
  by (simp add: strip_label_def split: option.splits sum.splits)

lemma strip_labels_frame:
  "next_free (fst (strip_labels upper outputs h)) = next_free h
   \<and> (\<forall>b. b \<notin> set outputs \<longrightarrow> cells (fst (strip_labels upper outputs h)) b = cells h b)"
proof (induction outputs arbitrary: h)
  case Nil
  show ?case by simp
next
  case (Cons out outs)
  obtain h1 err where step: "strip_label upper out h = (h1, err)"
    by (cases "strip_label upper out h")
  have one: "next_free h1 = next_free h \<and> (\<forall>b. b \<noteq> out \<longrightarrow> cells h1 b = cells h b)"
    using strip_label_frame [of upper out h] by (simp add: step)
  show ?case
  proof (cases err)
    case None
    then show ?thesis
      using one Cons.IH [of h1] by (simp add: step)
  next
    case (Some e)
    then show ?thesis
      using one by (simp add: step)
  qed
qed

lemma strip_label_ok:
  assumes "first_label (cells h output) = Some s"
  shows "strip_label upper output h =
           (h\<lparr>cells := (cells h)(output := dict_set (cells h output) ''label'' (PyStr (upper (drop 9 s))))\<rparr>,
            None)"
proof -
  from assms obtain rest where "map_of (cells h output) ''label'' = Some (PyList (PyStr s # rest))"
    using first_label_SomeD by blast
  then show ?thesis
    by (simp add: strip_label_def subscript0_def slice_from9_def call_upper_def py_slice_from9)
qed

lemma deepcopy_refs_length:
  assumes "deepcopy_refs xs memo h = (ys, memo', h')"
  shows "length ys = length xs"
  using assms
  by (induction xs arbitrary: memo h ys memo' h')
    (auto simp: allocate_def split: option.splits prod.splits)

lemma deepcopy_refs_new:
  assumes "deepcopy_refs xs memo h = (ys, memo', h')"
    and "\<forall>(a, a') \<in> set memo. n \<le> a'" and "n \<le> next_free h"
  shows "\<forall>y \<in> set ys. n \<le> y"
  using assms
proof (induction xs arbitrary: memo h ys memo' h')
  case Nil
  then show ?case by simp
next
  case (Cons x xs)
  show ?case
  proof (cases "map_of memo x")
    case (Some x')
    with Cons.prems(1) obtain zs where rest: "deepcopy_refs xs memo h = (zs, memo', h')"
      and ys: "ys = x' # zs"
      by (auto split: prod.splits)
    from Some have "(x, x') \<in> set memo"
      by (rule map_of_SomeD)
    with Cons.prems(2) have "n \<le> x'"
      by auto
    moreover have "\<forall>y \<in> set zs. n \<le> y"
      using rest Cons.prems(2,3) by (rule Cons.IH)
    ultimately show ?thesis
      by (simp add: ys)
  next
    case None
    let ?h1 = "h\<lparr>cells := (cells h)(next_free h := cells h x), next_free := next_free h + 1\<rparr>"
    from None Cons.prems(1) obtain zs where rest: "deepcopy_refs xs ((x, next_free h) # memo) ?h1 = (zs, memo', h')"
      and ys: "ys = next_free h # zs"
      by (auto simp: allocate_def split: prod.splits)
    have "\<forall>y \<in> set zs. n \<le> y"
    proof (rule Cons.IH [OF rest])
      show "\<forall>(a, a') \<in> set ((x, next_free h) # memo). n \<le> a'"
        using Cons.prems(2,3) by simp
      show "n \<le> next_free ?h1"
        using Cons.prems(3) by simp
    qed
    then show ?thesis
      using Cons.prems(3) by (simp add: ys)
  qed
qed

lemma strip_labels_ok:
  assumes "distinct outs" and "\<forall>a \<in> set outs. first_label (cells h a) \<noteq> None"
  shows "snd (strip_labels upper outs h) = None
       \<and> (\<forall>a \<in> set outs. cells (fst (strip_labels upper outs h)) a =
             dict_set (cells h a) ''label'' (PyStr (upper (drop 9 (the (first_label (cells h a)))))))"
  using assms
proof (induction outs arbitrary: h)
  case Nil
  show ?case by simp
next
  case (Cons out outs)
  from Cons.prems(2) obtain s where s: "first_label (cells h out) = Some s"
    by auto
  let ?h1 = "h\<lparr>cells := (cells h)(out := dict_set (cells h out) ''label'' (PyStr (upper (drop 9 s))))\<rparr>"
  have step: "strip_label upper out h = (?h1, None)"
    using s by (rule strip_label_ok)
  have fresh: "out \<notin> set outs" and rest: "distinct outs"
    using Cons.prems(1) by simp_all
  have same: "cells ?h1 a = cells h a" if "a \<in> set outs" for a
    using that fresh by auto
  have IH: "snd (strip_labels upper outs ?h1) = None
       \<and> (\<forall>a \<in> set outs. cells (fst (strip_labels upper outs ?h1)) a =
             dict_set (cells ?h1 a) ''label'' (PyStr (upper (drop 9 (the (first_label (cells ?h1 a)))))))"
  proof (rule Cons.IH [OF rest])
    show "\<forall>a \<in> set outs. first_label (cells ?h1 a) \<noteq> None"
      using Cons.prems(2) same by simp
  qed
  have head: "cells (fst (strip_labels upper outs ?h1)) out = cells ?h1 out"
    using strip_labels_frame [of upper outs ?h1] fresh by blast
  show ?case
    using IH head same s by (simp add: step)
qed

lemma upper_ascii_examples: "upper_ascii ''en'' = ''EN''" "upper_ascii ''fr'' = ''FR''"
  by (simp_all add: upper_ascii_def)

text \<open>
  Claim C10. The label-stripping loop works on a deep copy of the predictions: after the
  loop every object of the original store, and so the original \<open>predictions\<close>, is
  unchanged, and the copy consists of as many new objects. When the response is as the
  service gives it (distinct dictionaries, each with a \<open>label\<close> list that starts with a
  string), the loop raises nothing and in the copy every output's \<open>label\<close> field is the
  first element of the original label list without its first 9 characters, in upper
  case; the other fields are those of the original.
\<close>

theorem labels_stripped_in_copy_only:
  "(case strip_labels_of_copy upper predictions h of
      (predictions_copy, h', err) \<Rightarrow>
        (\<forall>a < next_free h. cells h' a = cells h a)
        \<and> length predictions_copy = length predictions
        \<and> (\<forall>c \<in> set predictions_copy. next_free h \<le> c)
        \<and> ((\<forall>a \<in> set predictions. a < next_free h) \<and> distinct predictions
             \<and> (\<forall>a \<in> set predictions. first_label (cells h a) \<noteq> None) \<longrightarrow>
             err = None
             \<and> (\<forall>i < length predictions.
                   map_of (cells h' (predictions_copy ! i)) ''label'' =
                     Some (PyStr (upper (drop 9 (the (first_label (cells h (predictions ! i)))))))
                   \<and> (\<forall>k. k \<noteq> ''label'' \<longrightarrow>
                          map_of (cells h' (predictions_copy ! i)) k =
                            map_of (cells h (predictions ! i)) k))))"
proof -
  obtain ys memo h1 where copy: "deepcopy_refs predictions [] h = (ys, memo, h1)"
    by (cases "deepcopy_refs predictions [] h")
  obtain h' err where loop: "strip_labels upper ys h1 = (h', err)"
    by (cases "strip_labels upper ys h1")
  have result: "strip_labels_of_copy upper predictions h = (ys, h', err)"
    by (simp add: strip_labels_of_copy_def deepcopy_def copy loop)
  have keeps: "next_free h \<le> next_free h1 \<and> (\<forall>a < next_free h. cells h1 a = cells h a)"
    using copy by (rule deepcopy_refs_keeps)
  have new: "\<forall>y \<in> set ys. next_free h \<le> y"
    using copy by (rule deepcopy_refs_new) simp_all
  have frame: "\<forall>b. b \<notin> set ys \<longrightarrow> cells h' b = cells h1 b"
    using strip_labels_frame [of upper ys h1] by (simp add: loop)
  have original: "\<forall>a < next_free h. cells h' a = cells h a"
    using keeps new frame by (metis leD)
  have len: "length ys = length predictions"
    using copy by (rule deepcopy_refs_length)
  have stripped: "err = None
             \<and> (\<forall>i < length predictions.
                   map_of (cells h' (ys ! i)) ''label'' =
                     Some (PyStr (upper (drop 9 (the (first_label (cells h (predictions ! i)))))))
                   \<and> (\<forall>k. k \<noteq> ''label'' \<longrightarrow>
                          map_of (cells h' (ys ! i)) k = map_of (cells h (predictions ! i)) k))"
    if allocated: "\<forall>a \<in> set predictions. a < next_free h" and different: "distinct predictions"
      and labelled: "\<forall>a \<in> set predictions. first_label (cells h a) \<noteq> None"
  proof -
    have copies: "\<forall>i < length predictions. cells h1 (ys ! i) = cells h (predictions ! i)"
      using deepcopy_refs_copies [OF copy allocated] by simp
    have dist: "distinct ys"
      using deepcopy_refs_fresh [OF copy different] by simp
    have "\<forall>y \<in> set ys. first_label (cells h1 y) \<noteq> None"
      using copies labelled len by (metis in_set_conv_nth nth_mem)
    then have ok: "err = None
       \<and> (\<forall>a \<in> set ys. cells h' a =
             dict_set (cells h1 a) ''label'' (PyStr (upper (drop 9 (the (first_label (cells h1 a)))))))"
      using strip_labels_ok [OF dist, of h1 upper] by (simp add: loop)
    show ?thesis
      using ok copies len by (simp add: map_of_dict_set)
  qed
  from original len new stripped show ?thesis
    by (simp add: result)
qed

theorem labels_stripped_in_copy_only_witness:
  "fst (strip_labels_of_copy upper_ascii [0, 1]
         \<lparr>cells = (\<lambda>a. [])
            (0 := [(''label'', PyList [PyStr ''__label__en'']), (''prob'', PyList [PyNum 0.5])],
             1 := [(''label'', PyList [PyStr ''__label__fr'']), (''prob'', PyList [PyNum 0.25])]),
          next_free = 2\<rparr>) = [2, 3]
   \<and> snd (snd (strip_labels_of_copy upper_ascii [0, 1]
         \<lparr>cells = (\<lambda>a. [])
            (0 := [(''label'', PyList [PyStr ''__label__en'']), (''prob'', PyList [PyNum 0.5])],
             1 := [(''label'', PyList [PyStr ''__label__fr'']), (''prob'', PyList [PyNum 0.25])]),
          next_free = 2\<rparr>)) = None
   \<and> map (cells (fst (snd (strip_labels_of_copy upper_ascii [0, 1]
         \<lparr>cells = (\<lambda>a. [])
            (0 := [(''label'', PyList [PyStr ''__label__en'']), (''prob'', PyList [PyNum 0.5])],
             1 := [(''label'', PyList [PyStr ''__label__fr'']), (''prob'', PyList [PyNum 0.25])]),
          next_free = 2\<rparr>)))) [0, 1, 2, 3] =
     [[(''label'', PyList [PyStr ''__label__en'']), (''prob'', PyList [PyNum 0.5])],
      [(''label'', PyList [PyStr ''__label__fr'']), (''prob'', PyList [PyNum 0.25])],
      [(''label'', PyStr ''EN''), (''prob'', PyList [PyNum 0.5])],
      [(''label'', PyStr ''FR''), (''prob'', PyList [PyNum 0.25])]]"
  using labels_stripped_in_copy_only
    [where upper = upper_ascii and predictions = "[0, 1]" and h =
        "\<lparr>cells = (\<lambda>a. [])
            (0 := [(''label'', PyList [PyStr ''__label__en'']), (''prob'', PyList [PyNum 0.5])],
             1 := [(''label'', PyList [PyStr ''__label__fr'']), (''prob'', PyList [PyNum 0.25])]),
          next_free = 2\<rparr>"]
  by (simp add: strip_labels_of_copy_def deepcopy_def allocate_def strip_label_def subscript0_def
      slice_from9_def call_upper_def py_slice_def slice_bound_def upper_ascii_examples)

text \<open>
  The copy matters: the same loop run on the original list rewrites the original
  dictionaries.
\<close>

lemma strip_labels_without_copy_changes_original:
  "cells (fst (strip_labels upper_ascii [0]
         \<lparr>cells = (\<lambda>a. [])(0 := [(''label'', PyList [PyStr ''__label__en''])]), next_free = 1\<rparr>)) 0 =
     [(''label'', PyStr ''EN'')]"
  by (simp add: strip_label_def subscript0_def slice_from9_def call_upper_def py_slice_def
      slice_bound_def upper_ascii_examples)

end
